theory Spec2Isabelle
  imports Complex_Main
begin

section \<open>Interview completion processor\<close>

text \<open>
  A shallow embedding of \<^verbatim>\<open>apps/agent/processors/interview_completion_processor.py\<close>:
  the class \<^verbatim>\<open>InterviewCompletionProcessor\<close>, its question matcher, the two speech
  handlers registered by \<^verbatim>\<open>setup\<close>, the completion evaluator and the completion latch.

  Conventions of the model.
  \<^item> A Python \<^verbatim>\<open>str\<close> is a \<^typ>\<open>string\<close>; a \<^typ>\<open>char\<close> stands for the code point of
    the same number, so the model covers texts over U+0000..U+00FF.
  \<^item> A Python \<^verbatim>\<open>float\<close> is the rational number it stands for. A reading of
    \<^verbatim>\<open>time.time()\<close> is such a number of seconds, and every reading a handler takes is
    an argument of that handler. Subtraction and division of floats round their exact
    result to the nearest float (\<open>fsub\<close>, \<open>fdiv\<close> below).
  \<^item> The completion callback is taken to return normally. Every call of
    \<^verbatim>\<open>_mark_complete\<close> is the last statement its caller runs, and the callback is
    awaited last in \<^verbatim>\<open>_mark_complete\<close>, so an exception of the callback would leave
    the handler with the state the model gives, the latch set and the call made.
  \<^item> Mutation of \<^verbatim>\<open>self\<close> is state passing. What a handler does to the outside world
    (custom call events, the completion log line, the completion callback) is appended
    to the field \<open>effects\<close> of the state, in program order.
  \<^item> An exception is a value: a handler returns \<open>Inl\<close> of the error or \<open>Inr\<close> of the
    new state.
\<close>

subsection \<open>Python string operations\<close>

text \<open>\<^verbatim>\<open>str.isspace\<close> for one character, on U+0000..U+00FF.\<close>

definition isspace :: "char \<Rightarrow> bool" where
  "isspace c \<longleftrightarrow>
     (of_char c :: nat) \<in> {9, 10, 11, 12, 13, 28, 29, 30, 31, 32, 133, 160}"

text \<open>\<^verbatim>\<open>str.lower\<close> for one character: A-Z, and the upper-case letters of Latin-1.\<close>

definition lower_char :: "char \<Rightarrow> char" where
  "lower_char c =
     (let n = (of_char c :: nat)
      in if (65 \<le> n \<and> n \<le> 90) \<or> (192 \<le> n \<and> n \<le> 222 \<and> n \<noteq> 215)
         then char_of (n + 32) else c)"

definition lower :: "string \<Rightarrow> string" where
  "lower s = map lower_char s"

text \<open>\<^verbatim>\<open>str.strip()\<close>: leading and trailing whitespace removed.\<close>

definition strip :: "string \<Rightarrow> string" where
  "strip s = rev (dropWhile isspace (rev (dropWhile isspace s)))"

text \<open>
  \<^verbatim>\<open>str.split()\<close> without a separator: the maximal runs of non-whitespace characters,
  in order. The first argument of \<open>split_from\<close> is the word read so far.
\<close>

fun split_from :: "string \<Rightarrow> string \<Rightarrow> string list" where
  "split_from w [] = (if w = [] then [] else [w])"
| "split_from w (c # cs) =
     (if isspace c then (if w = [] then split_from [] cs else w # split_from [] cs)
      else split_from (w @ [c]) cs)"

definition split :: "string \<Rightarrow> string list" where
  "split s = split_from [] s"

text \<open>\<^verbatim>\<open>sub in s\<close> for strings: \<open>sub\<close> occurs in \<open>s\<close> as a contiguous block.\<close>

fun startswith :: "string \<Rightarrow> string \<Rightarrow> bool" where
  "startswith s [] = True"
| "startswith [] (p # ps) = False"
| "startswith (c # cs) (p # ps) = (c = p \<and> startswith cs ps)"

fun str_contains :: "string \<Rightarrow> string \<Rightarrow> bool" where
  "str_contains sub [] = (sub = [])"
| "str_contains sub (c # cs) = (startswith (c # cs) sub \<or> str_contains sub cs)"

subsection \<open>Python float operations\<close>

text \<open>
  Rounding to the nearest integer, a tie going to the even one, as IEEE 754 arithmetic
  and \<^verbatim>\<open>round\<close> do.
\<close>

definition round_half_even :: "rat \<Rightarrow> int" where
  "round_half_even y =
     (let f = \<lfloor>y\<rfloor>; d = y - of_int f
      in if d < 1 / 2 then f
         else if 1 / 2 < d then f + 1
         else if even f then f else f + 1)"

text \<open>\<^verbatim>\<open>int.bit_length\<close> of a positive integer; 0 for the others.\<close>

function bit_length :: "int \<Rightarrow> int" where
  "bit_length n = (if n \<le> 0 then 0 else 1 + bit_length (n div 2))"
  by pat_completeness auto
termination
  by (relation "measure nat") auto

definition pow2 :: "int \<Rightarrow> rat" where
  "pow2 e = (if 0 \<le> e then 2 ^ nat e else 1 / 2 ^ nat (- e))"

text \<open>The \<open>e\<close> with \<open>2 ^ e \<le> \<bar>x\<bar> < 2 ^ (e + 1)\<close>, for \<open>x \<noteq> 0\<close>.\<close>

definition exponent :: "rat \<Rightarrow> int" where
  "exponent x =
     (let (p, q) = quotient_of \<bar>x\<bar>;
          e0 = bit_length p - bit_length q
      in if pow2 e0 \<le> \<bar>x\<bar> then e0 else e0 - 1)"

text \<open>
  The binary64 float nearest to \<open>x\<close>: 53 significant bits, a tie going to the even
  significand. The exponent is not bounded here, so overflow to infinity and the
  subnormal numbers are left out; clock readings, their differences and quotients are far
  from both.
\<close>

definition float_round :: "rat \<Rightarrow> rat" where
  "float_round x =
     (if x = 0 then 0
      else let u = pow2 (exponent x - 52) in of_int (round_half_even (x / u)) * u)"

definition fsub :: "rat \<Rightarrow> rat \<Rightarrow> rat" where
  "fsub a b = float_round (a - b)"

definition fdiv :: "rat \<Rightarrow> rat \<Rightarrow> rat" where
  "fdiv a b = float_round (a / b)"

text \<open>
  \<^verbatim>\<open>round(x, 2)\<close>: the exact value of \<open>x\<close> rounded to the nearest multiple of 1/100, a tie
  going to the even one, and the float nearest to that.
\<close>

definition round2 :: "rat \<Rightarrow> rat" where
  "round2 x = float_round (of_int (round_half_even (x * 100)) / 100)"

subsection \<open>Data\<close>

text \<open>
  A question is a dict with the keys \<^verbatim>\<open>text\<close> and \<^verbatim>\<open>category\<close>. The field for
  \<^verbatim>\<open>text\<close> is named \<open>question_text\<close>, since \<open>text\<close> is a keyword of Isabelle.
\<close>

record question =
  question_text :: string
  category :: string

record TranscriptEntry =
  speaker :: string
  entry_text :: string
  timestamp :: rat


text \<open>
  What a reason string says. The source builds the reason with f-strings; the model keeps
  the values that go into it.
\<close>

datatype reason_part =
    AgentSaidGoodbye
  | AskedQuestions nat
  | MinDuration rat

datatype reason =
    Evaluated "reason_part list"
  | UserSaidGoodbye
  | TimeoutAfter rat

text \<open>
  The effects of the processor on its collaborators: a custom call event of type
  \<^verbatim>\<open>transcript\<close> (speaker, text, timestamp) or \<^verbatim>\<open>progress\<close> (questionIndex, category,
  totalQuestions) handed to \<^verbatim>\<open>call.send_call_event\<close>, the log line of \<^verbatim>\<open>_mark_complete\<close>
  with its reason, and a call of the completion callback. Other log lines are left out.
\<close>

datatype effect =
    TranscriptEvent string string rat
  | ProgressEvent nat string nat
  | MarkedComplete reason
  | CompletionCallback

datatype error = TypeError

text \<open>
  The attributes of \<^verbatim>\<open>InterviewCompletionProcessor\<close>. \<open>completion_callback\<close> and \<open>call\<close>
  say whether the attribute is set (truthy); \<open>is_complete\<close> is whether the
  \<^verbatim>\<open>asyncio.Event\<close> is set.
\<close>

record state =
  questions :: "question list"
  expected_questions :: nat
  minimum_duration_minutes :: int
  completion_callback :: bool
  call :: bool
  agent_user_id :: string
  questions_asked :: nat
  current_question_index :: nat
  agent_closing_phrases :: "string list"
  last_agent_speech_time :: "rat option"
  interview_start_time :: "rat option"
  is_complete :: bool
  transcript :: "TranscriptEntry list"
  agent_speech_accumulator :: string
  accumulator_last_update :: "rat option"
  effects :: "effect list"

definition ACCUMULATOR_GAP_THRESHOLD :: rat where
  "ACCUMULATOR_GAP_THRESHOLD = 2"

definition closing_keywords :: "string set" where
  "closing_keywords =
     {''goodbye'', ''good bye'', ''bye'',
      ''luck'', ''best wishes'',
      ''thank you for your time'', ''thanks for sharing'',
      ''we'' @ [CHR 0x27] @ ''ll be in touch'', ''be in touch'',
      ''that concludes'', ''wraps up''}"

definition filler_words :: "string set" where
  "filler_words =
     {''the'', ''a'', ''an'', ''is'', ''are'', ''was'', ''were'', ''to'', ''for'', ''and'',
      ''or'', ''in'', ''on'', ''at'', ''of'', ''your'', ''you'', ''me'', ''can'', ''could'',
      ''would'', ''about'', ''with''}"

subsection \<open>Construction and setup\<close>

text \<open>\<^verbatim>\<open>__init__\<close>; \<^verbatim>\<open>minimum_duration_minutes\<close> defaults to 8.\<close>

definition default_minimum_duration_minutes :: int where
  "default_minimum_duration_minutes = 8"

definition init :: "question list \<Rightarrow> int \<Rightarrow> bool \<Rightarrow> bool \<Rightarrow> string \<Rightarrow> state" where
  "init qs min_minutes callback the_call user_id =
     \<lparr> questions = qs,
       expected_questions = length qs,
       minimum_duration_minutes = min_minutes,
       completion_callback = callback,
       call = the_call,
       agent_user_id = user_id,
       questions_asked = 0,
       current_question_index = 0,
       agent_closing_phrases = [],
       last_agent_speech_time = None,
       interview_start_time = None,
       is_complete = False,
       transcript = [],
       agent_speech_accumulator = [],
       accumulator_last_update = None,
       effects = [] \<rparr>"

text \<open>
  The method \<^verbatim>\<open>setup\<close> reads the clock and then registers the two handlers. It is named
  \<open>on_setup\<close> here, its own name being a keyword of Isabelle.
\<close>

definition on_setup :: "state \<Rightarrow> rat \<Rightarrow> state" where
  "on_setup s now = s\<lparr>interview_start_time := Some now\<rparr>"

subsection \<open>Outbound notifications\<close>

text \<open>
  Both senders return at once when there is no call or no agent user id; a failure of
  \<^verbatim>\<open>send_call_event\<close> is caught and logged, so the attempt is all the model records.
\<close>

definition send_transcript_event :: "state \<Rightarrow> string \<Rightarrow> string \<Rightarrow> rat \<Rightarrow> state" where
  "send_transcript_event s spk txt ts =
     (if \<not> call s \<or> agent_user_id s = [] then s
      else s\<lparr>effects := effects s @ [TranscriptEvent spk txt ts]\<rparr>)"

definition send_progress_event :: "state \<Rightarrow> nat \<Rightarrow> string \<Rightarrow> state" where
  "send_progress_event s question_index cat =
     (if \<not> call s \<or> agent_user_id s = [] then s
      else s\<lparr>effects := effects s @ [ProgressEvent question_index cat (expected_questions s)]\<rparr>)"

subsection \<open>Question matcher\<close>

text \<open>
  The loop of \<^verbatim>\<open>_check_question_match\<close> over \<^verbatim>\<open>range(current_question_index, len(questions))\<close>.
  The ratio \<^verbatim>\<open>len(meaningful_common) / len(meaningful_question)\<close> and the bound \<^verbatim>\<open>0.4\<close> are
  the exact numbers here. The float quotient and the float \<^verbatim>\<open>0.4\<close> compare as the exact
  numbers do as long as the question has fewer than \<open>10 ^ 16\<close> meaningful words: rounding
  is monotone, and a quotient \<open>a / b\<close> below \<open>2 / 5\<close> is below it by \<open>1 / (5 * b)\<close> or more.
\<close>

fun match_loop :: "question list \<Rightarrow> string set \<Rightarrow> nat list \<Rightarrow> nat option" where
  "match_loop qs accumulated_words [] = None"
| "match_loop qs accumulated_words (idx # rest) =
     (let question_words = set (split (lower (question_text (qs ! idx))))
      in if card question_words = 0 then match_loop qs accumulated_words rest
         else
           let common_words = accumulated_words \<inter> question_words;
               meaningful_common = common_words - filler_words;
               meaningful_question = question_words - filler_words
           in if card meaningful_question = 0 then match_loop qs accumulated_words rest
              else if (2 / 5 :: rat)
                        \<le> of_nat (card meaningful_common) / of_nat (card meaningful_question)
                   then Some idx
                   else match_loop qs accumulated_words rest)"

definition check_question_match :: "state \<Rightarrow> string \<Rightarrow> nat option" where
  "check_question_match s accumulated_text =
     (if current_question_index s \<ge> length (questions s) then None
      else match_loop (questions s) (set (split (lower accumulated_text)))
             [current_question_index s ..< length (questions s)])"

subsection \<open>Completion latch and evaluator\<close>

definition mark_complete :: "state \<Rightarrow> reason \<Rightarrow> state" where
  "mark_complete s why =
     (if \<not> is_complete s then
        (let s1 = s\<lparr>effects := effects s @ [MarkedComplete why], is_complete := True\<rparr>
         in if completion_callback s1 then s1\<lparr>effects := effects s1 @ [CompletionCallback]\<rparr>
            else s1)
      else s)"

text \<open>
  \<^verbatim>\<open>get_duration_minutes\<close>, with the clock reading as argument. The test
  \<^verbatim>\<open>if self.interview_start_time\<close> is false for \<^verbatim>\<open>None\<close> and for \<^verbatim>\<open>0.0\<close>.
\<close>

definition get_duration_minutes :: "state \<Rightarrow> rat \<Rightarrow> rat" where
  "get_duration_minutes s now =
     (case interview_start_time s of
        None \<Rightarrow> 0
      | Some t0 \<Rightarrow> if t0 \<noteq> 0 then fdiv (fsub now t0) 60 else 0)"

definition check_completion :: "state \<Rightarrow> rat \<Rightarrow> state" where
  "check_completion s now =
     (let duration_minutes =
            (case interview_start_time s of
               None \<Rightarrow> 0
             | Some t0 \<Rightarrow> if t0 \<noteq> 0 then fdiv (fsub now t0) 60 else 0);
          has_closing_phrase = (length (agent_closing_phrases s) > 0);
          enough_questions = (int (questions_asked s) \<ge> int (expected_questions s) - 1);
          enough_time = (duration_minutes \<ge> of_int (minimum_duration_minutes s))
      in if has_closing_phrase \<and> (enough_questions \<or> enough_time) then
           mark_complete s
             (Evaluated
                ((if has_closing_phrase then [AgentSaidGoodbye] else [])
                 @ (if enough_questions then [AskedQuestions (questions_asked s)] else [])
                 @ (if enough_time then [MinDuration duration_minutes] else [])))
         else s)"

text \<open>
  \<^verbatim>\<open>wait_for_completion\<close>: \<^verbatim>\<open>asyncio.wait_for\<close> on the latch either returns, because the
  latch was set, or raises \<^verbatim>\<open>TimeoutError\<close>. Which of the two happens is decided by the
  event loop and is an argument here. The timeout defaults to 900 seconds.
\<close>

datatype wait_outcome = LatchSet | TimedOut

definition default_timeout :: rat where
  "default_timeout = 900"

definition wait_for_completion :: "state \<Rightarrow> rat \<Rightarrow> wait_outcome \<Rightarrow> state" where
  "wait_for_completion s timeout outcome =
     (case outcome of
        LatchSet \<Rightarrow> s
      | TimedOut \<Rightarrow> mark_complete s (TimeoutAfter (fdiv timeout 60)))"

subsection \<open>Handlers registered by setup\<close>

text \<open>
  \<^verbatim>\<open>_check_accumulator_for_question\<close>. The index read from \<open>questions\<close> is the one the
  matcher returned, which is below the number of questions (lemma
  \<open>check_question_match_range\<close> below).
\<close>

definition check_accumulator_for_question :: "state \<Rightarrow> state" where
  "check_accumulator_for_question s =
     (if agent_speech_accumulator s = [] then s
      else
        let s1 =
              (case check_question_match s (agent_speech_accumulator s) of
                 None \<Rightarrow> s
               | Some matched_idx \<Rightarrow>
                   if matched_idx \<ge> current_question_index s then
                     (let current_q = questions s ! matched_idx;
                          s' = send_progress_event s matched_idx (category current_q)
                      in s'\<lparr>current_question_index := matched_idx + 1,
                            questions_asked := matched_idx + 1\<rparr>)
                   else s)
        in s1\<lparr>agent_speech_accumulator := []\<rparr>)"

text \<open>
  \<^verbatim>\<open>on_agent_speech\<close> is three blocks in sequence, each a definition here: the gap check
  (source lines 208-212), the transcript entry with its broadcast and the accumulation
  (lines 214-230), and the closing-phrase detection (lines 234-248). \<open>now\<close> is the clock
  reading at the head of the handler, \<open>now_check\<close> the one \<^verbatim>\<open>_check_completion\<close> takes.
  \<^verbatim>\<open>now - self.interview_start_time\<close> raises \<^verbatim>\<open>TypeError\<close> while the start time is
  \<^verbatim>\<open>None\<close>.
\<close>

definition agent_gap_check :: "state \<Rightarrow> rat \<Rightarrow> state" where
  "agent_gap_check s now =
     (case accumulator_last_update s of
        None \<Rightarrow> s
      | Some last_update \<Rightarrow>
          let gap = fsub now last_update
          in if gap > ACCUMULATOR_GAP_THRESHOLD then check_accumulator_for_question s else s)"

definition agent_record :: "state \<Rightarrow> string \<Rightarrow> rat \<Rightarrow> error + state" where
  "agent_record s txt now =
     (if txt \<noteq> [] then
        (case interview_start_time s of
           None \<Rightarrow> Inl TypeError
         | Some t0 \<Rightarrow>
             let elapsed = fsub now t0;
                 s1 = s\<lparr>transcript := transcript s @
                         [\<lparr>speaker = ''agent'', entry_text = txt, timestamp = round2 elapsed\<rparr>]\<rparr>;
                 s2 = send_transcript_event s1 ''agent'' txt (round2 elapsed);
                 s3 = (if agent_speech_accumulator s2 \<noteq> []
                       then s2\<lparr>agent_speech_accumulator :=
                                 agent_speech_accumulator s2 @ '' '' @ txt\<rparr>
                       else s2\<lparr>agent_speech_accumulator := txt\<rparr>)
             in Inr (s3\<lparr>accumulator_last_update := Some now\<rparr>))
      else Inr s)"

definition agent_closing :: "state \<Rightarrow> string \<Rightarrow> rat \<Rightarrow> state" where
  "agent_closing s txt now_check =
     (if \<exists>keyword \<in> closing_keywords. str_contains keyword (lower txt) then
        let s1 = s\<lparr>agent_closing_phrases := agent_closing_phrases s @ [txt]\<rparr>;
            s2 = (if current_question_index s1 < length (questions s1) then
                    (let last_idx = length (questions s1) - 1;
                         last_q = questions s1 ! last_idx;
                         s' = send_progress_event s1 last_idx (category last_q)
                     in s'\<lparr>current_question_index := length (questions s')\<rparr>)
                  else s1)
        in check_completion s2 now_check
      else s)"

definition on_agent_speech :: "state \<Rightarrow> string \<Rightarrow> rat \<Rightarrow> rat \<Rightarrow> error + state" where
  "on_agent_speech s event_text now now_check =
     (let txt = strip event_text;
          s1 = agent_gap_check s now
      in case agent_record s1 txt now of
           Inl e \<Rightarrow> Inl e
         | Inr s2 \<Rightarrow>
             Inr (agent_closing (s2\<lparr>last_agent_speech_time := Some now\<rparr>) txt now_check))"

text \<open>
  \<^verbatim>\<open>on_user_speech\<close>: the unconditional flush (line 254), the transcript entry with its
  broadcast (lines 262-271) and the goodbye test (lines 274-276).
\<close>

definition user_record :: "state \<Rightarrow> string \<Rightarrow> rat \<Rightarrow> error + state" where
  "user_record s txt now =
     (if txt \<noteq> [] \<and> length txt > 1 then
        (case interview_start_time s of
           None \<Rightarrow> Inl TypeError
         | Some t0 \<Rightarrow>
             let elapsed = fsub now t0;
                 s1 = s\<lparr>transcript := transcript s @
                         [\<lparr>speaker = ''user'', entry_text = txt, timestamp = round2 elapsed\<rparr>]\<rparr>
             in Inr (send_transcript_event s1 ''user'' txt (round2 elapsed)))
      else Inr s)"

definition user_goodbye :: "state \<Rightarrow> string \<Rightarrow> state" where
  "user_goodbye s txt =
     (if str_contains ''goodbye'' (lower txt) \<or> str_contains ''bye'' (lower txt)
      then mark_complete s UserSaidGoodbye else s)"

definition on_user_speech :: "state \<Rightarrow> string \<Rightarrow> rat \<Rightarrow> error + state" where
  "on_user_speech s event_text now =
     (let s1 = check_accumulator_for_question s;
          txt = strip event_text
      in case user_record s1 txt now of
           Inl e \<Rightarrow> Inl e
         | Inr s2 \<Rightarrow> Inr (user_goodbye s2 txt))"

subsection \<open>The processor driven by a sequence of events\<close>

text \<open>
  What can happen to a processor after setup: an agent or a user transcription event
  arrives, or a call of \<^verbatim>\<open>wait_for_completion\<close> comes to its end. A run stops at the first
  exception.
\<close>

datatype event =
    AgentSpeech string rat rat
  | UserSpeech string rat
  | WaitForCompletion rat wait_outcome

fun step :: "state \<Rightarrow> event \<Rightarrow> error + state" where
  "step s (AgentSpeech event_text now now_check) = on_agent_speech s event_text now now_check"
| "step s (UserSpeech event_text now) = on_user_speech s event_text now"
| "step s (WaitForCompletion timeout outcome) = Inr (wait_for_completion s timeout outcome)"

fun run :: "state \<Rightarrow> event list \<Rightarrow> error + state" where
  "run s [] = Inr s"
| "run s (e # es) = (case step s e of Inl err \<Rightarrow> Inl err | Inr s' \<Rightarrow> run s' es)"

text \<open>How often the completion callback has been called.\<close>

definition callback_calls :: "state \<Rightarrow> nat" where
  "callback_calls s = length (filter (\<lambda>e. e = CompletionCallback) (effects s))"

text \<open>The progress and the transcript events handed to the call so far, in order.\<close>

definition progress_events :: "state \<Rightarrow> effect list" where
  "progress_events s =
     filter (\<lambda>e. case e of ProgressEvent i c n \<Rightarrow> True | _ \<Rightarrow> False) (effects s)"

definition transcript_events :: "state \<Rightarrow> effect list" where
  "transcript_events s =
     filter (\<lambda>e. case e of TranscriptEvent a b c \<Rightarrow> True | _ \<Rightarrow> False) (effects s)"

subsection \<open>The matcher as the specification words it\<close>

text \<open>
  The specification of the matcher, for comparison with \<open>check_question_match\<close>: a text
  is lower-cased and cut at whitespace into a set of words; its meaningful words are
  those that are no filler words; the overlap of an accumulated text with a question is
  the share of the question's meaningful words that are meaningful words of the
  accumulated text; a question qualifies if its word set and its meaningful set are not
  empty and the overlap is 0.40 or more.
\<close>

definition spec_words :: "string \<Rightarrow> string set" where
  "spec_words t = set (split (lower t))"

definition spec_meaningful :: "string \<Rightarrow> string set" where
  "spec_meaningful t = spec_words t - filler_words"

definition spec_overlap :: "string \<Rightarrow> string \<Rightarrow> rat" where
  "spec_overlap accumulated q =
     of_nat (card (spec_meaningful accumulated \<inter> spec_meaningful q))
       / of_nat (card (spec_meaningful q))"

definition spec_qualifies :: "string \<Rightarrow> string \<Rightarrow> bool" where
  "spec_qualifies accumulated q \<longleftrightarrow>
     spec_words q \<noteq> {} \<and> spec_meaningful q \<noteq> {} \<and> 2 / 5 \<le> spec_overlap accumulated q"

subsection \<open>Invariants\<close>

text \<open>
  The completion callback has been called once if the latch is set and a callback was
  given, and never otherwise.
\<close>

definition callback_latch :: "state \<Rightarrow> bool" where
  "callback_latch s \<longleftrightarrow>
     callback_calls s = (if is_complete s \<and> completion_callback s then 1 else 0)"

text \<open>The question count never runs ahead of the cursor.\<close>

definition progress_inv :: "state \<Rightarrow> bool" where
  "progress_inv s \<longleftrightarrow> questions_asked s \<le> current_question_index s"

text \<open>
  What one handler may do to the latch: the callback attribute stays, a set latch stays
  set, and the callback is called once more if the latch went from unset to set and a
  callback was given, and not otherwise.
\<close>

definition latch_step :: "state \<Rightarrow> state \<Rightarrow> bool" where
  "latch_step s s' \<longleftrightarrow>
     completion_callback s' = completion_callback s
     \<and> (is_complete s \<longrightarrow> is_complete s')
     \<and> callback_calls s' =
         callback_calls s
         + (if \<not> is_complete s \<and> is_complete s' \<and> completion_callback s then 1 else 0)"

subsection \<open>An interview with two questions\<close>

text \<open>
  A processor with two questions, a callback and a call, set up at clock reading 100;
  the state after the agent asked the first question in its own words at 101; and the
  state after the user answered at 105.
\<close>

definition example_questions :: "question list" where
  "example_questions =
     [\<lparr>question_text = ''Tell me about your experience with distributed systems'',
       category = ''technical''\<rparr>,
      \<lparr>question_text = ''Why do you want this job?'', category = ''wrap-up''\<rparr>]"

definition example_start :: state where
  "example_start = on_setup (init example_questions 8 True True ''agent-1'') 100"

definition example_asking :: state where
  "example_asking =
     example_start\<lparr>
       last_agent_speech_time := Some 101,
       transcript := [\<lparr>speaker = ''agent'',
                       entry_text = ''So tell me about your experience with systems'',
                       timestamp = 1\<rparr>],
       agent_speech_accumulator := ''So tell me about your experience with systems'',
       accumulator_last_update := Some 101,
       effects := [TranscriptEvent ''agent'' ''So tell me about your experience with systems'' 1]\<rparr>"

definition example_answered :: state where
  "example_answered =
     example_asking\<lparr>
       questions_asked := 1,
       current_question_index := 1,
       transcript := transcript example_asking @
         [\<lparr>speaker = ''user'', entry_text = ''Well, I built one.'', timestamp = 5\<rparr>],
       agent_speech_accumulator := [],
       effects := effects example_asking @
         [ProgressEvent 0 ''technical'' 2, TranscriptEvent ''user'' ''Well, I built one.'' 5]\<rparr>"

text \<open>
  The same processor when the agent says goodbye at 110 before any question was counted,
  and after the user answers "bye for now" at 120.
\<close>

definition example_closed :: state where
  "example_closed =
     example_start\<lparr>
       current_question_index := 2,
       agent_closing_phrases := [''Goodbye''],
       last_agent_speech_time := Some 110,
       transcript := [\<lparr>speaker = ''agent'', entry_text = ''Goodbye'', timestamp = 10\<rparr>],
       agent_speech_accumulator := ''Goodbye'',
       accumulator_last_update := Some 110,
       effects := [TranscriptEvent ''agent'' ''Goodbye'' 10, ProgressEvent 1 ''wrap-up'' 2]\<rparr>"

definition example_done :: state where
  "example_done =
     example_closed\<lparr>
       is_complete := True,
       transcript := transcript example_closed @
         [\<lparr>speaker = ''user'', entry_text = ''bye for now'', timestamp = 20\<rparr>],
       agent_speech_accumulator := [],
       effects := effects example_closed @
         [TranscriptEvent ''user'' ''bye for now'' 20, MarkedComplete UserSaidGoodbye,
          CompletionCallback]\<rparr>"

text \<open>
  The processor that is asking its first question when a second agent fragment,
  "and databases", arrives one second after the first, at 102, and when it arrives three
  seconds after it, at 104.
\<close>

definition example_joined :: state where
  "example_joined =
     example_asking\<lparr>
       last_agent_speech_time := Some 102,
       transcript := transcript example_asking @
         [\<lparr>speaker = ''agent'', entry_text = ''and databases'', timestamp = 2\<rparr>],
       agent_speech_accumulator :=
         ''So tell me about your experience with systems and databases'',
       accumulator_last_update := Some 102,
       effects := effects example_asking @ [TranscriptEvent ''agent'' ''and databases'' 2]\<rparr>"

definition example_flushed :: state where
  "example_flushed =
     example_asking\<lparr>
       questions_asked := 1,
       current_question_index := 1,
       last_agent_speech_time := Some 104,
       transcript := transcript example_asking @
         [\<lparr>speaker = ''agent'', entry_text = ''and databases'', timestamp = 4\<rparr>],
       agent_speech_accumulator := ''and databases'',
       accumulator_last_update := Some 104,
       effects := effects example_asking @
         [ProgressEvent 0 ''technical'' 2, TranscriptEvent ''agent'' ''and databases'' 4]\<rparr>"

text \<open>The processor after setup when the agent's first transcription, at 110, is "?".\<close>

definition example_punctuation :: state where
  "example_punctuation =
     example_start\<lparr>
       last_agent_speech_time := Some 110,
       transcript := [\<lparr>speaker = ''agent'', entry_text = ''?'', timestamp = 10\<rparr>],
       agent_speech_accumulator := ''?'',
       accumulator_last_update := Some 110,
       effects := [TranscriptEvent ''agent'' ''?'' 10]\<rparr>"

section \<open>Properties\<close>

subsection \<open>What each operation leaves alone\<close>

lemma send_progress_event_fields [simp]:
  "questions (send_progress_event s i c) = questions s"
  "expected_questions (send_progress_event s i c) = expected_questions s"
  "minimum_duration_minutes (send_progress_event s i c) = minimum_duration_minutes s"
  "completion_callback (send_progress_event s i c) = completion_callback s"
  "call (send_progress_event s i c) = call s"
  "agent_user_id (send_progress_event s i c) = agent_user_id s"
  "questions_asked (send_progress_event s i c) = questions_asked s"
  "current_question_index (send_progress_event s i c) = current_question_index s"
  "agent_closing_phrases (send_progress_event s i c) = agent_closing_phrases s"
  "last_agent_speech_time (send_progress_event s i c) = last_agent_speech_time s"
  "interview_start_time (send_progress_event s i c) = interview_start_time s"
  "is_complete (send_progress_event s i c) = is_complete s"
  "transcript (send_progress_event s i c) = transcript s"
  "agent_speech_accumulator (send_progress_event s i c) = agent_speech_accumulator s"
  "accumulator_last_update (send_progress_event s i c) = accumulator_last_update s"
  by (simp_all add: send_progress_event_def)

lemma send_transcript_event_fields [simp]:
  "questions (send_transcript_event s a b c) = questions s"
  "expected_questions (send_transcript_event s a b c) = expected_questions s"
  "minimum_duration_minutes (send_transcript_event s a b c) = minimum_duration_minutes s"
  "completion_callback (send_transcript_event s a b c) = completion_callback s"
  "call (send_transcript_event s a b c) = call s"
  "agent_user_id (send_transcript_event s a b c) = agent_user_id s"
  "questions_asked (send_transcript_event s a b c) = questions_asked s"
  "current_question_index (send_transcript_event s a b c) = current_question_index s"
  "agent_closing_phrases (send_transcript_event s a b c) = agent_closing_phrases s"
  "last_agent_speech_time (send_transcript_event s a b c) = last_agent_speech_time s"
  "interview_start_time (send_transcript_event s a b c) = interview_start_time s"
  "is_complete (send_transcript_event s a b c) = is_complete s"
  "transcript (send_transcript_event s a b c) = transcript s"
  "agent_speech_accumulator (send_transcript_event s a b c) = agent_speech_accumulator s"
  "accumulator_last_update (send_transcript_event s a b c) = accumulator_last_update s"
  by (simp_all add: send_transcript_event_def)

lemma mark_complete_fields [simp]:
  "questions (mark_complete s r) = questions s"
  "expected_questions (mark_complete s r) = expected_questions s"
  "minimum_duration_minutes (mark_complete s r) = minimum_duration_minutes s"
  "completion_callback (mark_complete s r) = completion_callback s"
  "call (mark_complete s r) = call s"
  "agent_user_id (mark_complete s r) = agent_user_id s"
  "questions_asked (mark_complete s r) = questions_asked s"
  "current_question_index (mark_complete s r) = current_question_index s"
  "agent_closing_phrases (mark_complete s r) = agent_closing_phrases s"
  "last_agent_speech_time (mark_complete s r) = last_agent_speech_time s"
  "interview_start_time (mark_complete s r) = interview_start_time s"
  "transcript (mark_complete s r) = transcript s"
  "agent_speech_accumulator (mark_complete s r) = agent_speech_accumulator s"
  "accumulator_last_update (mark_complete s r) = accumulator_last_update s"
  "is_complete (mark_complete s r) = True"
  by (simp_all add: mark_complete_def Let_def)

lemma mark_complete_effects:
  "effects (mark_complete s r) =
     (if is_complete s then effects s
      else effects s @ MarkedComplete r # (if completion_callback s then [CompletionCallback] else []))"
  by (simp add: mark_complete_def Let_def)

lemma mark_complete_noop: "is_complete s \<Longrightarrow> mark_complete s r = s"
  by (simp add: mark_complete_def)


lemma check_completion_unfold:
  "check_completion s now = s \<or>
   check_completion s now = mark_complete s
     (Evaluated
        ((if length (agent_closing_phrases s) > 0 then [AgentSaidGoodbye] else [])
         @ (if int (questions_asked s) \<ge> int (expected_questions s) - 1
            then [AskedQuestions (questions_asked s)] else [])
         @ (if get_duration_minutes s now \<ge> of_int (minimum_duration_minutes s)
            then [MinDuration (get_duration_minutes s now)] else [])))"
  unfolding check_completion_def get_duration_minutes_def Let_def
  by (rule if_split [THEN iffD2]) blast


lemma check_completion_fields [simp]:
  "questions (check_completion s n) = questions s"
  "expected_questions (check_completion s n) = expected_questions s"
  "minimum_duration_minutes (check_completion s n) = minimum_duration_minutes s"
  "completion_callback (check_completion s n) = completion_callback s"
  "call (check_completion s n) = call s"
  "agent_user_id (check_completion s n) = agent_user_id s"
  "questions_asked (check_completion s n) = questions_asked s"
  "current_question_index (check_completion s n) = current_question_index s"
  "agent_closing_phrases (check_completion s n) = agent_closing_phrases s"
  "last_agent_speech_time (check_completion s n) = last_agent_speech_time s"
  "interview_start_time (check_completion s n) = interview_start_time s"
  "transcript (check_completion s n) = transcript s"
  "agent_speech_accumulator (check_completion s n) = agent_speech_accumulator s"
  "accumulator_last_update (check_completion s n) = accumulator_last_update s"
  using check_completion_unfold [of s n] by (elim disjE, simp, simp)+

lemma check_accumulator_unfold:
  "check_accumulator_for_question s =
     (if agent_speech_accumulator s = [] then s
      else case check_question_match s (agent_speech_accumulator s) of
             None \<Rightarrow> s\<lparr>agent_speech_accumulator := []\<rparr>
           | Some i \<Rightarrow>
               if current_question_index s \<le> i
               then (send_progress_event s i (category (questions s ! i)))
                      \<lparr>current_question_index := Suc i, questions_asked := Suc i,
                       agent_speech_accumulator := []\<rparr>
               else s\<lparr>agent_speech_accumulator := []\<rparr>)"
  by (simp add: check_accumulator_for_question_def Let_def split: option.split)

lemma check_accumulator_fields [simp]:
  "questions (check_accumulator_for_question s) = questions s"
  "expected_questions (check_accumulator_for_question s) = expected_questions s"
  "minimum_duration_minutes (check_accumulator_for_question s) = minimum_duration_minutes s"
  "completion_callback (check_accumulator_for_question s) = completion_callback s"
  "call (check_accumulator_for_question s) = call s"
  "agent_user_id (check_accumulator_for_question s) = agent_user_id s"
  "agent_closing_phrases (check_accumulator_for_question s) = agent_closing_phrases s"
  "last_agent_speech_time (check_accumulator_for_question s) = last_agent_speech_time s"
  "interview_start_time (check_accumulator_for_question s) = interview_start_time s"
  "is_complete (check_accumulator_for_question s) = is_complete s"
  "transcript (check_accumulator_for_question s) = transcript s"
  "accumulator_last_update (check_accumulator_for_question s) = accumulator_last_update s"
  "agent_speech_accumulator (check_accumulator_for_question s) = []"
  by (simp_all add: check_accumulator_unfold split: option.split)

subsection \<open>The blocks of the handlers\<close>

lemma callback_calls_send [simp]:
  "callback_calls (send_progress_event s i c) = callback_calls s"
  "callback_calls (send_transcript_event s a b t) = callback_calls s"
  by (simp_all add: callback_calls_def send_progress_event_def send_transcript_event_def)

lemma callback_calls_update [simp]:
  "callback_calls (s\<lparr>current_question_index := k\<rparr>) = callback_calls s"
  "callback_calls (s\<lparr>questions_asked := k\<rparr>) = callback_calls s"
  "callback_calls (s\<lparr>agent_closing_phrases := ps\<rparr>) = callback_calls s"
  "callback_calls (s\<lparr>agent_speech_accumulator := a\<rparr>) = callback_calls s"
  "callback_calls (s\<lparr>accumulator_last_update := u\<rparr>) = callback_calls s"
  "callback_calls (s\<lparr>last_agent_speech_time := u\<rparr>) = callback_calls s"
  "callback_calls (s\<lparr>interview_start_time := u\<rparr>) = callback_calls s"
  "callback_calls (s\<lparr>transcript := tr\<rparr>) = callback_calls s"
  by (simp_all add: callback_calls_def)

lemma callback_calls_mark_complete:
  "callback_calls (mark_complete s r) =
     callback_calls s + (if \<not> is_complete s \<and> completion_callback s then 1 else 0)"
  by (simp add: callback_calls_def mark_complete_effects)

lemma callback_calls_check_accumulator [simp]:
  "callback_calls (check_accumulator_for_question s) = callback_calls s"
  by (simp add: check_accumulator_unfold callback_calls_def send_progress_event_def
      split: option.split)

lemma callback_latch_mark_complete:
  "callback_latch s \<Longrightarrow> callback_latch (mark_complete s r)"
  by (simp add: callback_latch_def callback_calls_mark_complete)

lemma callback_latch_check_completion:
  "callback_latch s \<Longrightarrow> callback_latch (check_completion s n)"
  using check_completion_unfold [of s n] by (auto intro: callback_latch_mark_complete)

lemma is_complete_check_completion:
  "is_complete s \<Longrightarrow> is_complete (check_completion s n)"
  using check_completion_unfold [of s n] by auto

lemma callback_latch_check_accumulator:
  "callback_latch s \<Longrightarrow> callback_latch (check_accumulator_for_question s)"
  by (simp add: callback_latch_def)

lemma agent_gap_check_cases:
  "agent_gap_check s now = s \<or> agent_gap_check s now = check_accumulator_for_question s"
  by (simp add: agent_gap_check_def Let_def split: option.split)

lemma agent_record_Inr:
  assumes "agent_record s txt now = Inr s'"
  shows "questions s' = questions s" "expected_questions s' = expected_questions s"
    "minimum_duration_minutes s' = minimum_duration_minutes s"
    "completion_callback s' = completion_callback s"
    "questions_asked s' = questions_asked s"
    "current_question_index s' = current_question_index s"
    "agent_closing_phrases s' = agent_closing_phrases s"
    "interview_start_time s' = interview_start_time s"
    "is_complete s' = is_complete s"
    "callback_calls s' = callback_calls s"
  using assms
  by (auto simp: agent_record_def Let_def callback_calls_def send_transcript_event_def
      split: if_splits option.splits)

lemma user_record_Inr:
  assumes "user_record s txt now = Inr s'"
  shows "questions s' = questions s" "expected_questions s' = expected_questions s"
    "minimum_duration_minutes s' = minimum_duration_minutes s"
    "completion_callback s' = completion_callback s"
    "questions_asked s' = questions_asked s"
    "current_question_index s' = current_question_index s"
    "agent_closing_phrases s' = agent_closing_phrases s"
    "interview_start_time s' = interview_start_time s"
    "is_complete s' = is_complete s"
    "callback_calls s' = callback_calls s"
    "agent_speech_accumulator s' = agent_speech_accumulator s"
    "accumulator_last_update s' = accumulator_last_update s"
  using assms
  by (auto simp: user_record_def Let_def callback_calls_def send_transcript_event_def
      split: if_splits option.splits)

lemma agent_record_total:
  "interview_start_time s = Some t0 \<Longrightarrow> \<exists>s'. agent_record s txt now = Inr s'"
  by (simp add: agent_record_def Let_def)

lemma user_record_total:
  "interview_start_time s = Some t0 \<Longrightarrow> \<exists>s'. user_record s txt now = Inr s'"
  by (simp add: user_record_def Let_def)


lemma match_loop_mem: "match_loop qs aw idxs = Some i \<Longrightarrow> i \<in> set idxs"
  by (induction idxs) (auto simp: Let_def split: if_splits)

lemma check_question_match_range:
  "check_question_match s t = Some i \<Longrightarrow>
     current_question_index s \<le> i \<and> i < length (questions s)"
  by (auto simp: check_question_match_def split: if_splits dest: match_loop_mem)

lemma check_accumulator_progress:
  assumes "progress_inv s"
  shows "progress_inv (check_accumulator_for_question s)"
    and "current_question_index s \<le> current_question_index (check_accumulator_for_question s)"
    and "questions_asked s \<le> questions_asked (check_accumulator_for_question s)"
  using assms
  by (auto simp: check_accumulator_unfold progress_inv_def split: option.split
      dest: check_question_match_range)

lemma agent_gap_check_progress:
  assumes "progress_inv s"
  shows "progress_inv (agent_gap_check s now)"
    and "current_question_index s \<le> current_question_index (agent_gap_check s now)"
    and "questions_asked s \<le> questions_asked (agent_gap_check s now)"
  using assms agent_gap_check_cases [of s now] check_accumulator_progress [of s] by auto

lemma agent_gap_check_fields [simp]:
  "questions (agent_gap_check s now) = questions s"
  "expected_questions (agent_gap_check s now) = expected_questions s"
  "minimum_duration_minutes (agent_gap_check s now) = minimum_duration_minutes s"
  "completion_callback (agent_gap_check s now) = completion_callback s"
  "call (agent_gap_check s now) = call s"
  "agent_user_id (agent_gap_check s now) = agent_user_id s"
  "agent_closing_phrases (agent_gap_check s now) = agent_closing_phrases s"
  "last_agent_speech_time (agent_gap_check s now) = last_agent_speech_time s"
  "interview_start_time (agent_gap_check s now) = interview_start_time s"
  "is_complete (agent_gap_check s now) = is_complete s"
  "transcript (agent_gap_check s now) = transcript s"
  "accumulator_last_update (agent_gap_check s now) = accumulator_last_update s"
  "callback_calls (agent_gap_check s now) = callback_calls s"
  using agent_gap_check_cases [of s now] by auto

lemma agent_closing_unfold:
  "agent_closing s txt n =
     (if \<exists>keyword \<in> closing_keywords. str_contains keyword (lower txt)
      then check_completion
             (if current_question_index s < length (questions s)
              then (send_progress_event (s\<lparr>agent_closing_phrases := agent_closing_phrases s @ [txt]\<rparr>)
                      (length (questions s) - 1)
                      (category (questions s ! (length (questions s) - 1))))
                     \<lparr>current_question_index := length (questions s)\<rparr>
              else s\<lparr>agent_closing_phrases := agent_closing_phrases s @ [txt]\<rparr>) n
      else s)"
  by (simp add: agent_closing_def Let_def)

lemma agent_closing_fields [simp]:
  "questions (agent_closing s txt n) = questions s"
  "expected_questions (agent_closing s txt n) = expected_questions s"
  "minimum_duration_minutes (agent_closing s txt n) = minimum_duration_minutes s"
  "completion_callback (agent_closing s txt n) = completion_callback s"
  "call (agent_closing s txt n) = call s"
  "agent_user_id (agent_closing s txt n) = agent_user_id s"
  "questions_asked (agent_closing s txt n) = questions_asked s"
  "last_agent_speech_time (agent_closing s txt n) = last_agent_speech_time s"
  "interview_start_time (agent_closing s txt n) = interview_start_time s"
  "transcript (agent_closing s txt n) = transcript s"
  "agent_speech_accumulator (agent_closing s txt n) = agent_speech_accumulator s"
  "accumulator_last_update (agent_closing s txt n) = accumulator_last_update s"
  by (simp_all add: agent_closing_unfold)

lemma agent_closing_index:
  "current_question_index (agent_closing s txt n) =
     (if (\<exists>keyword \<in> closing_keywords. str_contains keyword (lower txt))
         \<and> current_question_index s < length (questions s)
      then length (questions s) else current_question_index s)"
  by (simp add: agent_closing_unfold)

lemma agent_closing_latch:
  assumes "callback_latch s"
  shows "callback_latch (agent_closing s txt n)"
proof -
  have A: "callback_latch (s\<lparr>agent_closing_phrases := x\<rparr>)" for x
    using assms by (simp add: callback_latch_def)
  have B: "callback_latch ((send_progress_event s' i c)\<lparr>current_question_index := k\<rparr>)"
    if "callback_latch s'" for s' i c k
    using that by (simp add: callback_latch_def)
  show ?thesis
    unfolding agent_closing_unfold by (simp add: callback_latch_check_completion A B assms)
qed

lemma agent_closing_is_complete:
  "is_complete s \<Longrightarrow> is_complete (agent_closing s txt n)"
  unfolding agent_closing_unfold by (simp add: is_complete_check_completion)

lemma user_goodbye_fields [simp]:
  "questions (user_goodbye s txt) = questions s"
  "expected_questions (user_goodbye s txt) = expected_questions s"
  "minimum_duration_minutes (user_goodbye s txt) = minimum_duration_minutes s"
  "completion_callback (user_goodbye s txt) = completion_callback s"
  "questions_asked (user_goodbye s txt) = questions_asked s"
  "current_question_index (user_goodbye s txt) = current_question_index s"
  "agent_closing_phrases (user_goodbye s txt) = agent_closing_phrases s"
  "interview_start_time (user_goodbye s txt) = interview_start_time s"
  "transcript (user_goodbye s txt) = transcript s"
  "agent_speech_accumulator (user_goodbye s txt) = agent_speech_accumulator s"
  "accumulator_last_update (user_goodbye s txt) = accumulator_last_update s"
  by (simp_all add: user_goodbye_def)

lemma user_goodbye_latch: "callback_latch s \<Longrightarrow> callback_latch (user_goodbye s txt)"
  by (simp add: user_goodbye_def callback_latch_mark_complete)

lemma user_goodbye_is_complete: "is_complete s \<Longrightarrow> is_complete (user_goodbye s txt)"
  by (simp add: user_goodbye_def)

subsection \<open>Handlers and runs\<close>

lemma on_agent_speech_Inr:
  assumes "on_agent_speech s ev now nc = Inr s'"
  obtains s2 where "agent_record (agent_gap_check s now) (strip ev) now = Inr s2"
    and "s' = agent_closing (s2\<lparr>last_agent_speech_time := Some now\<rparr>) (strip ev) nc"
  using assms by (auto simp: on_agent_speech_def Let_def split: sum.splits)

lemma on_user_speech_Inr:
  assumes "on_user_speech s ev now = Inr s'"
  obtains s2 where "user_record (check_accumulator_for_question s) (strip ev) now = Inr s2"
    and "s' = user_goodbye s2 (strip ev)"
  using assms by (auto simp: on_user_speech_def Let_def split: sum.splits)

lemma on_agent_speech_total:
  assumes "interview_start_time s = Some t0"
  shows "\<exists>s'. on_agent_speech s ev now nc = Inr s' \<and> interview_start_time s' = Some t0"
proof -
  have "interview_start_time (agent_gap_check s now) = Some t0" using assms by simp
  then obtain s2 where r: "agent_record (agent_gap_check s now) (strip ev) now = Inr s2"
    using agent_record_total by blast
  then have "interview_start_time s2 = Some t0"
    using agent_record_Inr(8) [OF r] assms by simp
  then show ?thesis using r by (simp add: on_agent_speech_def Let_def)
qed

lemma on_user_speech_total:
  assumes "interview_start_time s = Some t0"
  shows "\<exists>s'. on_user_speech s ev now = Inr s' \<and> interview_start_time s' = Some t0"
proof -
  have "interview_start_time (check_accumulator_for_question s) = Some t0" using assms by simp
  then obtain s2 where r: "user_record (check_accumulator_for_question s) (strip ev) now = Inr s2"
    using user_record_total by blast
  then have "interview_start_time s2 = Some t0"
    using user_record_Inr(8) [OF r] assms by simp
  then show ?thesis using r by (simp add: on_user_speech_def Let_def)
qed

lemma wait_for_completion_fields [simp]:
  "questions (wait_for_completion s t w) = questions s"
  "completion_callback (wait_for_completion s t w) = completion_callback s"
  "questions_asked (wait_for_completion s t w) = questions_asked s"
  "current_question_index (wait_for_completion s t w) = current_question_index s"
  "interview_start_time (wait_for_completion s t w) = interview_start_time s"
  by (simp_all add: wait_for_completion_def split: wait_outcome.split)

lemma step_total:
  assumes "interview_start_time s = Some t0"
  shows "\<exists>s'. step s e = Inr s' \<and> interview_start_time s' = Some t0"
  using assms on_agent_speech_total on_user_speech_total by (cases e) auto

lemma run_total:
  "interview_start_time s = Some t0 \<Longrightarrow>
     \<exists>s'. run s es = Inr s' \<and> interview_start_time s' = Some t0"
proof (induction es arbitrary: s)
  case Nil
  then show ?case by simp
next
  case (Cons e es)
  from step_total [OF Cons.prems] obtain s1 where
    "step s e = Inr s1" "interview_start_time s1 = Some t0" by blast
  with Cons.IH [of s1] show ?case by simp
qed

lemma run_invariant:
  assumes "run s es = Inr s'" and "P s"
    and "\<And>a e b. P a \<Longrightarrow> step a e = Inr b \<Longrightarrow> P b"
  shows "P s'"
  using assms(1,2)
proof (induction es arbitrary: s)
  case Nil
  then show ?case by simp
next
  case (Cons e es)
  then show ?case using assms(3) by (auto split: sum.splits)
qed

lemma run_append:
  "run s (es @ es') = (case run s es of Inl err \<Rightarrow> Inl err | Inr s1 \<Rightarrow> run s1 es')"
  by (induction es arbitrary: s) (auto split: sum.splits)

lemma step_callback_latch:
  assumes "callback_latch s" and "step s e = Inr s'"
  shows "callback_latch s'"
proof (cases e)
  case (AgentSpeech ev now nc)
  with assms(2) have "on_agent_speech s ev now nc = Inr s'" by simp
  then obtain s2 where r: "agent_record (agent_gap_check s now) (strip ev) now = Inr s2"
    and s': "s' = agent_closing (s2\<lparr>last_agent_speech_time := Some now\<rparr>) (strip ev) nc"
    by (rule on_agent_speech_Inr)
  have "callback_latch s2"
    using assms(1) agent_record_Inr(4,9,10) [OF r] by (simp add: callback_latch_def)
  then have "callback_latch (s2\<lparr>last_agent_speech_time := Some now\<rparr>)"
    by (simp add: callback_latch_def)
  then show ?thesis unfolding s' by (rule agent_closing_latch)
next
  case (UserSpeech ev now)
  with assms(2) have "on_user_speech s ev now = Inr s'" by simp
  then obtain s2 where r: "user_record (check_accumulator_for_question s) (strip ev) now = Inr s2"
    and s': "s' = user_goodbye s2 (strip ev)"
    by (rule on_user_speech_Inr)
  have "callback_latch s2"
    using assms(1) user_record_Inr(4,9,10) [OF r] by (simp add: callback_latch_def)
  then show ?thesis unfolding s' by (rule user_goodbye_latch)
next
  case (WaitForCompletion t w)
  with assms show ?thesis
    by (cases w) (auto simp: wait_for_completion_def intro: callback_latch_mark_complete)
qed

lemma step_is_complete:
  assumes "is_complete s" and "step s e = Inr s'"
  shows "is_complete s'"
proof (cases e)
  case (AgentSpeech ev now nc)
  with assms(2) have "on_agent_speech s ev now nc = Inr s'" by simp
  then obtain s2 where r: "agent_record (agent_gap_check s now) (strip ev) now = Inr s2"
    and s': "s' = agent_closing (s2\<lparr>last_agent_speech_time := Some now\<rparr>) (strip ev) nc"
    by (rule on_agent_speech_Inr)
  have "is_complete (s2\<lparr>last_agent_speech_time := Some now\<rparr>)"
    using assms(1) agent_record_Inr(9) [OF r] by simp
  then show ?thesis unfolding s' by (rule agent_closing_is_complete)
next
  case (UserSpeech ev now)
  with assms(2) have "on_user_speech s ev now = Inr s'" by simp
  then obtain s2 where r: "user_record (check_accumulator_for_question s) (strip ev) now = Inr s2"
    and s': "s' = user_goodbye s2 (strip ev)"
    by (rule on_user_speech_Inr)
  have "is_complete s2" using assms(1) user_record_Inr(9) [OF r] by simp
  then show ?thesis unfolding s' by (rule user_goodbye_is_complete)
next
  case (WaitForCompletion t w)
  with assms show ?thesis by (cases w) (auto simp: wait_for_completion_def)
qed

lemma step_completion_callback:
  assumes "step s e = Inr s'"
  shows "completion_callback s' = completion_callback s"
proof (cases e)
  case (AgentSpeech ev now nc)
  with assms have "on_agent_speech s ev now nc = Inr s'" by simp
  then obtain s2 where r: "agent_record (agent_gap_check s now) (strip ev) now = Inr s2"
    and s': "s' = agent_closing (s2\<lparr>last_agent_speech_time := Some now\<rparr>) (strip ev) nc"
    by (rule on_agent_speech_Inr)
  show ?thesis unfolding s' using agent_record_Inr(4) [OF r] by simp
next
  case (UserSpeech ev now)
  with assms have "on_user_speech s ev now = Inr s'" by simp
  then obtain s2 where r: "user_record (check_accumulator_for_question s) (strip ev) now = Inr s2"
    and s': "s' = user_goodbye s2 (strip ev)"
    by (rule on_user_speech_Inr)
  show ?thesis unfolding s' using user_record_Inr(4) [OF r] by simp
next
  case (WaitForCompletion t w)
  with assms show ?thesis by auto
qed

subsection \<open>The two-question interview\<close>

lemma example_asking_step:
  "step example_start (AgentSpeech ''So tell me about your experience with systems'' 101 101)
     = Inr example_asking"
  by code_simp

lemma example_answered_step:
  "step example_asking (UserSpeech ''Well, I built one.'' 105) = Inr example_answered"
  by code_simp

lemma example_asking_match:
  "check_question_match example_asking (agent_speech_accumulator example_asking) = Some 0"
  by code_simp

lemma example_closing:
  "\<exists>keyword \<in> closing_keywords. str_contains keyword (lower ''Thank you for your time'')"
  by code_simp

lemma example_progress: "progress_inv example_asking" "progress_inv example_answered"
  by code_simp+

lemma step_index_mono:
  assumes "step s e = Inr s'"
  shows "current_question_index s \<le> current_question_index s'"
proof (cases e)
  case (AgentSpeech ev now nc)
  with assms have "on_agent_speech s ev now nc = Inr s'" by simp
  then obtain s2 where r: "agent_record (agent_gap_check s now) (strip ev) now = Inr s2"
    and s': "s' = agent_closing (s2\<lparr>last_agent_speech_time := Some now\<rparr>) (strip ev) nc"
    by (rule on_agent_speech_Inr)
  have "current_question_index s \<le> current_question_index (check_accumulator_for_question s)"
    by (auto simp: check_accumulator_unfold split: option.split dest: check_question_match_range)
  then have "current_question_index s \<le> current_question_index (agent_gap_check s now)"
    using agent_gap_check_cases [of s now] by auto
  then have "current_question_index s \<le> current_question_index s2"
    using agent_record_Inr(6) [OF r] by simp
  then show ?thesis unfolding s' by (simp add: agent_closing_index)
next
  case (UserSpeech ev now)
  with assms have "on_user_speech s ev now = Inr s'" by simp
  then obtain s2 where r: "user_record (check_accumulator_for_question s) (strip ev) now = Inr s2"
    and s': "s' = user_goodbye s2 (strip ev)"
    by (rule on_user_speech_Inr)
  have "current_question_index s \<le> current_question_index (check_accumulator_for_question s)"
    by (auto simp: check_accumulator_unfold split: option.split dest: check_question_match_range)
  then show ?thesis unfolding s' using user_record_Inr(6) [OF r] by simp
next
  case (WaitForCompletion t w)
  with assms show ?thesis by auto
qed

lemma step_progress:
  assumes "progress_inv s" and "step s e = Inr s'"
  shows "progress_inv s'" and "questions_asked s \<le> questions_asked s'"
proof -
  have "progress_inv s' \<and> questions_asked s \<le> questions_asked s'"
  proof (cases e)
    case (AgentSpeech ev now nc)
    with assms(2) have "on_agent_speech s ev now nc = Inr s'" by simp
    then obtain s2 where r: "agent_record (agent_gap_check s now) (strip ev) now = Inr s2"
      and s': "s' = agent_closing (s2\<lparr>last_agent_speech_time := Some now\<rparr>) (strip ev) nc"
      by (rule on_agent_speech_Inr)
    have "questions_asked s2 \<le> current_question_index s2" "questions_asked s \<le> questions_asked s2"
      using agent_gap_check_progress [OF assms(1), of now] agent_record_Inr(5,6) [OF r]
      by (simp_all add: progress_inv_def)
    then show ?thesis unfolding s' by (simp add: progress_inv_def agent_closing_index)
  next
    case (UserSpeech ev now)
    with assms(2) have "on_user_speech s ev now = Inr s'" by simp
    then obtain s2 where r: "user_record (check_accumulator_for_question s) (strip ev) now = Inr s2"
      and s': "s' = user_goodbye s2 (strip ev)"
      by (rule on_user_speech_Inr)
    show ?thesis unfolding s'
      using check_accumulator_progress [OF assms(1)] user_record_Inr(5,6) [OF r]
      by (simp add: progress_inv_def)
  next
    case (WaitForCompletion t w)
    with assms show ?thesis by (auto simp: progress_inv_def)
  qed
  then show "progress_inv s'" and "questions_asked s \<le> questions_asked s'" by simp_all
qed

lemma run_progress:
  assumes "run s es = Inr s'" and "progress_inv s"
  shows "progress_inv s'" and "current_question_index s \<le> current_question_index s'"
    and "questions_asked s \<le> questions_asked s'"
proof -
  have "progress_inv s' \<and> current_question_index s \<le> current_question_index s'
        \<and> questions_asked s \<le> questions_asked s'"
    using assms(1)
  proof (rule run_invariant [where P = "\<lambda>a. progress_inv a
        \<and> current_question_index s \<le> current_question_index a
        \<and> questions_asked s \<le> questions_asked a"])
    show "progress_inv s \<and> current_question_index s \<le> current_question_index s
        \<and> questions_asked s \<le> questions_asked s" using assms(2) by simp
  next
    fix a e b
    assume a: "progress_inv a \<and> current_question_index s \<le> current_question_index a
        \<and> questions_asked s \<le> questions_asked a" and b: "step a e = Inr b"
    from a have pa: "progress_inv a" by simp
    show "progress_inv b \<and> current_question_index s \<le> current_question_index b
        \<and> questions_asked s \<le> questions_asked b"
      using a step_progress [OF pa b] step_index_mono [OF b] by simp
  qed
  then show "progress_inv s'" and "current_question_index s \<le> current_question_index s'"
    and "questions_asked s \<le> questions_asked s'" by simp_all
qed

lemma progress_inv_init:
  "progress_inv (init qs m cb c u)" "progress_inv (on_setup (init qs m cb c u) t0)"
  by (simp_all add: progress_inv_def init_def on_setup_def)

subsection \<open>The latch along a run\<close>

lemma foldl_mark_complete_set:
  "is_complete s \<Longrightarrow> foldl mark_complete s rs = s"
  by (induction rs) (simp_all add: mark_complete_noop)

lemma run_callback_latch:
  assumes "run s es = Inr s'" and "callback_latch s"
  shows "callback_latch s' \<and> completion_callback s' = completion_callback s"
proof -
  have "callback_latch s' \<and> completion_callback s' = completion_callback s"
    using assms(1)
    by (rule run_invariant [where P = "\<lambda>a. callback_latch a \<and> completion_callback a = completion_callback s"])
      (auto simp: assms(2) step_callback_latch step_completion_callback)
  then show ?thesis .
qed

lemma callback_latch_init: "callback_latch (on_setup (init qs m cb c u) t0)"
  by (simp add: callback_latch_def callback_calls_def on_setup_def init_def)

subsection \<open>The latch under each handler\<close>

lemma example_closed_step:
  "on_agent_speech example_start ''Goodbye'' 110 110 = Inr example_closed"
  by code_simp

lemma example_done_step:
  "step example_closed (UserSpeech ''bye for now'' 120) = Inr example_done"
  by code_simp

lemma example_run:
  "run example_start
     [AgentSpeech ''Goodbye'' 110 110, UserSpeech ''bye for now'' 120,
      WaitForCompletion 900 TimedOut] = Inr example_done"
  by code_simp

lemma example_done_facts:
  "\<not> is_complete example_closed" "is_complete example_done"
  "callback_calls example_closed = 0" "callback_calls example_done = 1"
  "interview_start_time example_closed = Some 100"
  "str_contains ''bye'' (lower (strip ''bye for now''))"
  "\<exists>keyword \<in> closing_keywords. str_contains keyword (lower (strip ''Goodbye''))"
  by code_simp+

lemma get_duration_minutes_cong:
  "interview_start_time a = interview_start_time b \<Longrightarrow>
     get_duration_minutes a n = get_duration_minutes b n"
  by (simp add: get_duration_minutes_def)

lemma check_completion_eq:
  "check_completion s now =
     (if agent_closing_phrases s \<noteq> []
         \<and> (int (expected_questions s) - 1 \<le> int (questions_asked s)
            \<or> of_int (minimum_duration_minutes s) \<le> get_duration_minutes s now)
      then mark_complete s
             (Evaluated
                ([AgentSaidGoodbye]
                 @ (if int (expected_questions s) - 1 \<le> int (questions_asked s)
                    then [AskedQuestions (questions_asked s)] else [])
                 @ (if of_int (minimum_duration_minutes s) \<le> get_duration_minutes s now
                    then [MinDuration (get_duration_minutes s now)] else [])))
      else s)"
  unfolding check_completion_def get_duration_minutes_def Let_def by simp

lemma is_complete_check_completion_iff:
  "is_complete (check_completion s now) \<longleftrightarrow>
     is_complete s
     \<or> (agent_closing_phrases s \<noteq> []
        \<and> (int (expected_questions s) - 1 \<le> int (questions_asked s)
           \<or> of_int (minimum_duration_minutes s) \<le> get_duration_minutes s now))"
  by (simp add: check_completion_eq)

lemma get_duration_minutes_update [simp]:
  "get_duration_minutes (send_progress_event s i c) n = get_duration_minutes s n"
  "get_duration_minutes (s\<lparr>current_question_index := k\<rparr>) n = get_duration_minutes s n"
  "get_duration_minutes (s\<lparr>agent_closing_phrases := ps\<rparr>) n = get_duration_minutes s n"
  "get_duration_minutes (s\<lparr>last_agent_speech_time := l\<rparr>) n = get_duration_minutes s n"
  by (simp_all add: get_duration_minutes_def)

lemma is_complete_agent_closing_iff:
  "is_complete (agent_closing s txt n) \<longleftrightarrow>
     is_complete s
     \<or> ((\<exists>keyword \<in> closing_keywords. str_contains keyword (lower txt))
        \<and> (int (expected_questions s) - 1 \<le> int (questions_asked s)
           \<or> of_int (minimum_duration_minutes s) \<le> get_duration_minutes s n))"
  unfolding agent_closing_unfold
  by (simp add: is_complete_check_completion_iff)

lemma is_complete_on_agent_speech_iff:
  assumes "on_agent_speech s ev now nc = Inr s'"
  shows "is_complete s' \<longleftrightarrow>
     is_complete s
     \<or> ((\<exists>keyword \<in> closing_keywords. str_contains keyword (lower (strip ev)))
        \<and> (int (expected_questions s) - 1 \<le> int (questions_asked (agent_gap_check s now))
           \<or> of_int (minimum_duration_minutes s) \<le> get_duration_minutes s nc))"
proof -
  from assms obtain s2 where r: "agent_record (agent_gap_check s now) (strip ev) now = Inr s2"
    and s': "s' = agent_closing (s2\<lparr>last_agent_speech_time := Some now\<rparr>) (strip ev) nc"
    by (rule on_agent_speech_Inr)
  have d: "get_duration_minutes (s2\<lparr>last_agent_speech_time := Some now\<rparr>) nc
             = get_duration_minutes s nc"
    by (rule get_duration_minutes_cong) (simp add: agent_record_Inr(8) [OF r])
  show ?thesis
    unfolding s' is_complete_agent_closing_iff d
    using agent_record_Inr(2,3,5,9) [OF r] by simp
qed

lemma latch_step_same:
  "completion_callback s' = completion_callback s \<Longrightarrow> is_complete s' = is_complete s \<Longrightarrow>
     callback_calls s' = callback_calls s \<Longrightarrow> latch_step s s'"
  by (simp add: latch_step_def)

lemma latch_step_trans: "latch_step a b \<Longrightarrow> latch_step b c \<Longrightarrow> latch_step a c"
  by (auto simp: latch_step_def split: if_splits)

lemma latch_step_mark_complete: "latch_step s (mark_complete s r)"
  by (simp add: latch_step_def callback_calls_mark_complete)

lemma latch_step_check_completion: "latch_step s (check_completion s n)"
  using check_completion_unfold [of s n]
  by (auto simp: latch_step_mark_complete intro: latch_step_same)

lemma latch_step_agent_closing: "latch_step s (agent_closing s txt n)"
proof -
  have a: "latch_step s x \<Longrightarrow> latch_step s (check_completion x n)" for x
    using latch_step_check_completion latch_step_trans by blast
  show ?thesis
    unfolding agent_closing_unfold
    by (auto intro!: a latch_step_same)
qed

lemma latch_step_user_goodbye: "latch_step s (user_goodbye s txt)"
  by (simp add: user_goodbye_def latch_step_mark_complete latch_step_same)

lemma step_latch_step:
  assumes "step s e = Inr s'"
  shows "latch_step s s'"
proof (cases e)
  case (AgentSpeech ev now nc)
  with assms have "on_agent_speech s ev now nc = Inr s'" by simp
  then obtain s2 where r: "agent_record (agent_gap_check s now) (strip ev) now = Inr s2"
    and s': "s' = agent_closing (s2\<lparr>last_agent_speech_time := Some now\<rparr>) (strip ev) nc"
    by (rule on_agent_speech_Inr)
  have "latch_step s (s2\<lparr>last_agent_speech_time := Some now\<rparr>)"
    using agent_record_Inr(4,9,10) [OF r] by (intro latch_step_same) simp_all
  then show ?thesis unfolding s' using latch_step_agent_closing latch_step_trans by blast
next
  case (UserSpeech ev now)
  with assms have "on_user_speech s ev now = Inr s'" by simp
  then obtain s2 where r: "user_record (check_accumulator_for_question s) (strip ev) now = Inr s2"
    and s': "s' = user_goodbye s2 (strip ev)"
    by (rule on_user_speech_Inr)
  have "latch_step s s2"
    using user_record_Inr(4,9,10) [OF r] by (intro latch_step_same) simp_all
  then show ?thesis unfolding s' using latch_step_user_goodbye latch_step_trans by blast
next
  case (WaitForCompletion t w)
  with assms show ?thesis
    by (cases w) (auto simp: wait_for_completion_def latch_step_mark_complete intro: latch_step_same)
qed

lemma run_latch_step:
  assumes "run s es = Inr s'"
  shows "latch_step s s'"
  using assms
proof (rule run_invariant [where P = "latch_step s"])
  show "latch_step s s" by (simp add: latch_step_def)
next
  fix a e b
  assume "latch_step s a" "step a e = Inr b"
  then show "latch_step s b" using step_latch_step latch_step_trans by blast
qed

lemma is_complete_wait_timeout: "is_complete (wait_for_completion s t TimedOut)"
  by (simp add: wait_for_completion_def)

lemma is_complete_user_bye:
  assumes "interview_start_time s = Some t0"
    and "str_contains ''goodbye'' (lower (strip ev)) \<or> str_contains ''bye'' (lower (strip ev))"
  shows "\<exists>s'. on_user_speech s ev now = Inr s' \<and> is_complete s'
               \<and> interview_start_time s' = Some t0"
proof -
  from on_user_speech_total [OF assms(1)] obtain s' where
    r: "on_user_speech s ev now = Inr s'" and t: "interview_start_time s' = Some t0" by blast
  from r obtain s2 where "s' = user_goodbye s2 (strip ev)" by (rule on_user_speech_Inr)
  then have "is_complete s'" using assms(2) by (simp add: user_goodbye_def)
  with r t show ?thesis by blast
qed

lemma run_from_setup:
  "\<exists>s'. run (on_setup (init qs m cb c u) t0) es = Inr s'
        \<and> interview_start_time s' = Some t0
        \<and> completion_callback s' = cb
        \<and> callback_calls s' = (if is_complete s' \<and> cb then 1 else 0)"
proof -
  let ?s0 = "on_setup (init qs m cb c u) t0"
  have "interview_start_time ?s0 = Some t0" by (simp add: on_setup_def)
  from run_total [OF this, of es] obtain s' where
    r: "run ?s0 es = Inr s'" and t: "interview_start_time s' = Some t0" by blast
  from run_callback_latch [OF r callback_latch_init]
  have "callback_calls s' = (if is_complete s' \<and> cb then 1 else 0)" "completion_callback s' = cb"
    by (simp_all add: callback_latch_def on_setup_def init_def)
  with r t show ?thesis by blast
qed

lemma run_latched:
  assumes "is_complete s" and "interview_start_time s = Some t0"
  shows "\<exists>s'. run s es = Inr s' \<and> is_complete s' \<and> callback_calls s' = callback_calls s"
proof -
  from run_total [OF assms(2), of es] obtain s' where r: "run s es = Inr s'" by blast
  from run_latch_step [OF r] assms(1) have "is_complete s'" "callback_calls s' = callback_calls s"
    by (simp_all add: latch_step_def)
  with r show ?thesis by blast
qed

lemma run_trigger:
  assumes "\<And>s. interview_start_time s = Some t0 \<Longrightarrow>
              \<exists>s'. step s e = Inr s' \<and> is_complete s' \<and> interview_start_time s' = Some t0"
  shows "\<exists>s'. run (on_setup (init qs m cb c u) t0) (es @ e # es') = Inr s'
            \<and> is_complete s' \<and> callback_calls s' = (if cb then 1 else 0)"
proof -
  let ?s0 = "on_setup (init qs m cb c u) t0"
  from run_from_setup [of qs m cb c u t0 es] obtain s1 where
    r1: "run ?s0 es = Inr s1" and t1: "interview_start_time s1 = Some t0"
    and c1: "completion_callback s1 = cb"
    and k1: "callback_calls s1 = (if is_complete s1 \<and> cb then 1 else 0)" by blast
  from assms [OF t1] obtain s2 where
    r2: "step s1 e = Inr s2" and i2: "is_complete s2" and t2: "interview_start_time s2 = Some t0"
    by blast
  from step_latch_step [OF r2] c1 k1 i2 have k2: "callback_calls s2 = (if cb then 1 else 0)"
    by (auto simp: latch_step_def split: if_splits)
  from run_latched [OF i2 t2, of es'] obtain s3 where
    r3: "run s2 es' = Inr s3" and i3: "is_complete s3" and k3: "callback_calls s3 = callback_calls s2"
    by blast
  have "run ?s0 (es @ e # es') = Inr s3" by (simp add: run_append r1 r2 r3)
  with i3 k3 k2 show ?thesis by simp
qed

subsection \<open>The evaluator, the user's goodbye and the timeout\<close>

lemma get_duration_minutes_cases:
  "interview_start_time s = Some t0 \<Longrightarrow> t0 \<noteq> 0 \<Longrightarrow>
     get_duration_minutes s now = fdiv (fsub now t0) 60"
  "interview_start_time s = None \<Longrightarrow> get_duration_minutes s now = 0"
  "interview_start_time s = Some 0 \<Longrightarrow> get_duration_minutes s now = 0"
  by (simp_all add: get_duration_minutes_def)

lemma effects_check_completion:
  "effects (check_completion s now) =
     (if \<not> is_complete s \<and> agent_closing_phrases s \<noteq> []
         \<and> (int (expected_questions s) - 1 \<le> int (questions_asked s)
            \<or> of_int (minimum_duration_minutes s) \<le> get_duration_minutes s now)
      then effects s
           @ MarkedComplete
               (Evaluated
                  ([AgentSaidGoodbye]
                   @ (if int (expected_questions s) - 1 \<le> int (questions_asked s)
                      then [AskedQuestions (questions_asked s)] else [])
                   @ (if of_int (minimum_duration_minutes s) \<le> get_duration_minutes s now
                      then [MinDuration (get_duration_minutes s now)] else [])))
           # (if completion_callback s then [CompletionCallback] else [])
      else effects s)"
  by (simp add: check_completion_eq mark_complete_effects)

lemma example_evaluator:
  "check_completion example_closed 110 = example_closed"
  "agent_closing_phrases example_closed \<noteq> []"
  "questions_asked example_closed = 0"
  "expected_questions example_closed = 2"
  "minimum_duration_minutes example_closed = 8"
  "get_duration_minutes example_closed 110 < 8"
  "get_duration_minutes example_closed 700 = 10"
  "is_complete (check_completion example_closed 700)"
  "effects (check_completion example_closed 700) =
     effects example_closed
     @ [MarkedComplete (Evaluated [AgentSaidGoodbye, MinDuration 10]), CompletionCallback]"
  "completion_callback example_closed"
  by code_simp+

lemma is_complete_on_user_speech_iff:
  assumes "on_user_speech s ev now = Inr s'"
  shows "is_complete s' \<longleftrightarrow>
     is_complete s
     \<or> str_contains ''goodbye'' (lower (strip ev)) \<or> str_contains ''bye'' (lower (strip ev))"
proof -
  from assms obtain s2 where r: "user_record (check_accumulator_for_question s) (strip ev) now = Inr s2"
    and s': "s' = user_goodbye s2 (strip ev)"
    by (rule on_user_speech_Inr)
  show ?thesis unfolding s' using user_record_Inr(9) [OF r] by (simp add: user_goodbye_def)
qed

lemma effects_on_user_speech_bye:
  assumes "on_user_speech s ev now = Inr s'"
    and "str_contains ''goodbye'' (lower (strip ev)) \<or> str_contains ''bye'' (lower (strip ev))"
    and "\<not> is_complete s"
  shows "\<exists>before. effects s' =
           before @ MarkedComplete UserSaidGoodbye
                    # (if completion_callback s then [CompletionCallback] else [])"
proof -
  from assms(1) obtain s2 where
    r: "user_record (check_accumulator_for_question s) (strip ev) now = Inr s2"
    and s': "s' = user_goodbye s2 (strip ev)"
    by (rule on_user_speech_Inr)
  have "s' = mark_complete s2 UserSaidGoodbye" using assms(2) s' by (simp add: user_goodbye_def)
  then have "effects s' = effects s2 @ MarkedComplete UserSaidGoodbye
                    # (if completion_callback s then [CompletionCallback] else [])"
    using user_record_Inr(4,9) [OF r] assms(3) by (simp add: mark_complete_effects)
  then show ?thesis by blast
qed

lemma example_bye:
  "on_user_speech example_closed ''bye for now'' 120 = Inr example_done"
  "check_completion example_closed 120 = example_closed"
  "effects example_done =
     effects example_closed
     @ [TranscriptEvent ''user'' ''bye for now'' 20, MarkedComplete UserSaidGoodbye,
        CompletionCallback]"
  "user_goodbye example_closed ''bye for now'' = mark_complete example_closed UserSaidGoodbye"
  by code_simp+

lemma fdiv_default_timeout: "fdiv default_timeout 60 = 15"
  by code_simp

lemma example_timeout:
  "effects (wait_for_completion example_closed default_timeout TimedOut) =
     effects example_closed @ [MarkedComplete (TimeoutAfter 15), CompletionCallback]"
  "wait_for_completion example_done default_timeout TimedOut = example_done"
  by code_simp+

subsection \<open>Transcript, notifications and the closing block\<close>

lemma progress_events_simps [simp]:
  "progress_events (send_transcript_event s a b t) = progress_events s"
  "progress_events (send_progress_event s i c) =
     progress_events s
     @ (if call s \<and> agent_user_id s \<noteq> [] then [ProgressEvent i c (expected_questions s)] else [])"
  "progress_events (mark_complete s r) = progress_events s"
  "progress_events (s\<lparr>current_question_index := k\<rparr>) = progress_events s"
  "progress_events (s\<lparr>questions_asked := k\<rparr>) = progress_events s"
  "progress_events (s\<lparr>agent_closing_phrases := ps\<rparr>) = progress_events s"
  "progress_events (s\<lparr>agent_speech_accumulator := acc\<rparr>) = progress_events s"
  "progress_events (s\<lparr>accumulator_last_update := l\<rparr>) = progress_events s"
  "progress_events (s\<lparr>last_agent_speech_time := l\<rparr>) = progress_events s"
  "progress_events (s\<lparr>transcript := tr\<rparr>) = progress_events s"
  by (simp_all add: progress_events_def send_transcript_event_def send_progress_event_def
      mark_complete_effects)

lemma transcript_events_simps [simp]:
  "transcript_events (send_transcript_event s a b t) =
     transcript_events s
     @ (if call s \<and> agent_user_id s \<noteq> [] then [TranscriptEvent a b t] else [])"
  "transcript_events (send_progress_event s i c) = transcript_events s"
  "transcript_events (mark_complete s r) = transcript_events s"
  "transcript_events (s\<lparr>current_question_index := k\<rparr>) = transcript_events s"
  "transcript_events (s\<lparr>questions_asked := k\<rparr>) = transcript_events s"
  "transcript_events (s\<lparr>agent_closing_phrases := ps\<rparr>) = transcript_events s"
  "transcript_events (s\<lparr>agent_speech_accumulator := acc\<rparr>) = transcript_events s"
  "transcript_events (s\<lparr>accumulator_last_update := l\<rparr>) = transcript_events s"
  "transcript_events (s\<lparr>last_agent_speech_time := l\<rparr>) = transcript_events s"
  "transcript_events (s\<lparr>transcript := tr\<rparr>) = transcript_events s"
  by (simp_all add: transcript_events_def send_transcript_event_def send_progress_event_def
      mark_complete_effects)

lemma events_check_completion [simp]:
  "progress_events (check_completion s n) = progress_events s"
  "transcript_events (check_completion s n) = transcript_events s"
  using check_completion_unfold [of s n] by auto

lemma transcript_events_check_accumulator [simp]:
  "transcript_events (check_accumulator_for_question s) = transcript_events s"
  by (simp add: check_accumulator_unfold split: option.split)

lemma progress_events_check_accumulator:
  "progress_events (check_accumulator_for_question s) =
     progress_events s
     @ (if agent_speech_accumulator s = [] then []
        else case check_question_match s (agent_speech_accumulator s) of
               None \<Rightarrow> []
             | Some i \<Rightarrow>
                 if call s \<and> agent_user_id s \<noteq> []
                 then [ProgressEvent i (category (questions s ! i)) (expected_questions s)]
                 else [])"
  by (auto simp: check_accumulator_unfold split: option.split dest: check_question_match_range)

lemma transcript_events_agent_gap_check [simp]:
  "transcript_events (agent_gap_check s now) = transcript_events s"
  using agent_gap_check_cases [of s now] by auto

lemma events_agent_closing:
  "transcript_events (agent_closing s txt n) = transcript_events s"
  "progress_events (agent_closing s txt n) =
     progress_events s
     @ (if (\<exists>keyword \<in> closing_keywords. str_contains keyword (lower txt))
           \<and> current_question_index s < length (questions s)
           \<and> call s \<and> agent_user_id s \<noteq> []
        then [ProgressEvent (length (questions s) - 1)
                (category (questions s ! (length (questions s) - 1))) (expected_questions s)]
        else [])"
  "agent_closing_phrases (agent_closing s txt n) =
     agent_closing_phrases s
     @ (if \<exists>keyword \<in> closing_keywords. str_contains keyword (lower txt) then [txt] else [])"
  by (simp_all add: agent_closing_unfold)

lemma events_user_goodbye [simp]:
  "transcript_events (user_goodbye s txt) = transcript_events s"
  "progress_events (user_goodbye s txt) = progress_events s"
  by (simp_all add: user_goodbye_def)

lemma agent_record_events:
  assumes "agent_record s txt now = Inr s'"
  shows "progress_events s' = progress_events s"
    and "call s' = call s" and "agent_user_id s' = agent_user_id s"
  using assms
  by (auto simp: agent_record_def Let_def split: if_splits option.splits)

lemma agent_record_nonempty:
  assumes "interview_start_time s = Some t0" and "txt \<noteq> []"
  shows "\<exists>s'. agent_record s txt now = Inr s'
     \<and> transcript s' = transcript s @
          [\<lparr>speaker = ''agent'', entry_text = txt, timestamp = round2 (fsub now t0)\<rparr>]
     \<and> transcript_events s' =
          transcript_events s
          @ (if call s \<and> agent_user_id s \<noteq> []
             then [TranscriptEvent ''agent'' txt (round2 (fsub now t0))] else [])
     \<and> agent_speech_accumulator s' =
          (if agent_speech_accumulator s = [] then txt
           else agent_speech_accumulator s @ '' '' @ txt)
     \<and> accumulator_last_update s' = Some now"
  using assms by (simp add: agent_record_def Let_def)

lemma user_record_long:
  assumes "interview_start_time s = Some t0" and "1 < length txt"
  shows "\<exists>s'. user_record s txt now = Inr s'
     \<and> transcript s' = transcript s @
          [\<lparr>speaker = ''user'', entry_text = txt, timestamp = round2 (fsub now t0)\<rparr>]
     \<and> transcript_events s' =
          transcript_events s
          @ (if call s \<and> agent_user_id s \<noteq> []
             then [TranscriptEvent ''user'' txt (round2 (fsub now t0))] else [])"
  using assms by (auto simp: user_record_def Let_def)

lemma startswith_length: "startswith s p \<Longrightarrow> length p \<le> length s"
  by (induction s p rule: startswith.induct) simp_all

lemma str_contains_length: "str_contains sub s \<Longrightarrow> length sub \<le> length s"
  by (induction s) (auto dest: startswith_length)

lemma no_closing_keyword_in_empty:
  "\<not> (\<exists>keyword \<in> closing_keywords. str_contains keyword (lower []))"
  by (simp add: closing_keywords_def lower_def)

lemma on_agent_speech_empty:
  "strip ev = [] \<Longrightarrow>
     on_agent_speech s ev now nc = Inr ((agent_gap_check s now)\<lparr>last_agent_speech_time := Some now\<rparr>)"
  using no_closing_keyword_in_empty
  by (simp add: on_agent_speech_def agent_record_def agent_closing_def Let_def)

lemma on_user_speech_short:
  assumes "length (strip ev) \<le> 1"
  shows "on_user_speech s ev now = Inr (check_accumulator_for_question s)"
proof -
  have "\<not> str_contains ''goodbye'' (lower (strip ev))" "\<not> str_contains ''bye'' (lower (strip ev))"
    using assms str_contains_length [of "''goodbye''" "lower (strip ev)"]
      str_contains_length [of "''bye''" "lower (strip ev)"]
    by (auto simp: lower_def)
  then show ?thesis using assms
    by (simp add: on_user_speech_def user_record_def user_goodbye_def Let_def)
qed

lemma on_agent_speech_nonempty:
  assumes "interview_start_time s = Some t0" and "strip ev \<noteq> []"
  shows "\<exists>s'. on_agent_speech s ev now nc = Inr s'
     \<and> transcript s' = transcript s @
          [\<lparr>speaker = ''agent'', entry_text = strip ev, timestamp = round2 (fsub now t0)\<rparr>]
     \<and> transcript_events s' =
          transcript_events s
          @ (if call s \<and> agent_user_id s \<noteq> []
             then [TranscriptEvent ''agent'' (strip ev) (round2 (fsub now t0))] else [])
     \<and> agent_speech_accumulator s' =
          (if agent_speech_accumulator (agent_gap_check s now) = [] then strip ev
           else agent_speech_accumulator (agent_gap_check s now) @ '' '' @ strip ev)
     \<and> accumulator_last_update s' = Some now"
proof -
  have t: "interview_start_time (agent_gap_check s now) = Some t0" using assms(1) by simp
  from agent_record_nonempty [OF t assms(2), of now] obtain s2 where
    r: "agent_record (agent_gap_check s now) (strip ev) now = Inr s2"
    and f: "transcript s2 = transcript s @
          [\<lparr>speaker = ''agent'', entry_text = strip ev, timestamp = round2 (fsub now t0)\<rparr>]"
      "transcript_events s2 =
          transcript_events s
          @ (if call s \<and> agent_user_id s \<noteq> []
             then [TranscriptEvent ''agent'' (strip ev) (round2 (fsub now t0))] else [])"
      "agent_speech_accumulator s2 =
          (if agent_speech_accumulator (agent_gap_check s now) = [] then strip ev
           else agent_speech_accumulator (agent_gap_check s now) @ '' '' @ strip ev)"
      "accumulator_last_update s2 = Some now"
    by auto
  have "on_agent_speech s ev now nc
          = Inr (agent_closing (s2\<lparr>last_agent_speech_time := Some now\<rparr>) (strip ev) nc)"
    using r by (simp add: on_agent_speech_def Let_def)
  then show ?thesis using f by (simp add: events_agent_closing(1))
qed

lemma on_user_speech_long:
  assumes "interview_start_time s = Some t0" and "1 < length (strip ev)"
  shows "\<exists>s'. on_user_speech s ev now = Inr s'
     \<and> transcript s' = transcript s @
          [\<lparr>speaker = ''user'', entry_text = strip ev, timestamp = round2 (fsub now t0)\<rparr>]
     \<and> transcript_events s' =
          transcript_events s
          @ (if call s \<and> agent_user_id s \<noteq> []
             then [TranscriptEvent ''user'' (strip ev) (round2 (fsub now t0))] else [])
     \<and> agent_speech_accumulator s' = []"
proof -
  have t: "interview_start_time (check_accumulator_for_question s) = Some t0"
    using assms(1) by simp
  from user_record_long [OF t assms(2), of now] obtain s2 where
    r: "user_record (check_accumulator_for_question s) (strip ev) now = Inr s2"
    and f: "transcript s2 = transcript s @
          [\<lparr>speaker = ''user'', entry_text = strip ev, timestamp = round2 (fsub now t0)\<rparr>]"
      "transcript_events s2 =
          transcript_events s
          @ (if call s \<and> agent_user_id s \<noteq> []
             then [TranscriptEvent ''user'' (strip ev) (round2 (fsub now t0))] else [])"
    by auto
  have "on_user_speech s ev now = Inr (user_goodbye s2 (strip ev))"
    using r by (simp add: on_user_speech_def Let_def)
  then show ?thesis using f user_record_Inr(11) [OF r] by simp
qed

lemma on_agent_speech_closing:
  assumes "on_agent_speech s ev now nc = Inr s'"
  shows "agent_closing_phrases s' =
           agent_closing_phrases s
           @ (if \<exists>keyword \<in> closing_keywords. str_contains keyword (lower (strip ev))
              then [strip ev] else [])"
    and "current_question_index s' =
           (if \<exists>keyword \<in> closing_keywords. str_contains keyword (lower (strip ev))
            then max (current_question_index (agent_gap_check s now)) (length (questions s))
            else current_question_index (agent_gap_check s now))"
    and "questions_asked s' = questions_asked (agent_gap_check s now)"
    and "progress_events s' =
           progress_events (agent_gap_check s now)
           @ (if (\<exists>keyword \<in> closing_keywords. str_contains keyword (lower (strip ev)))
                 \<and> current_question_index (agent_gap_check s now) < length (questions s)
                 \<and> call s \<and> agent_user_id s \<noteq> []
              then [ProgressEvent (length (questions s) - 1)
                      (category (questions s ! (length (questions s) - 1)))
                      (expected_questions s)]
              else [])"
    and "questions s' = questions s"
proof -
  from assms obtain s2 where r: "agent_record (agent_gap_check s now) (strip ev) now = Inr s2"
    and s': "s' = agent_closing (s2\<lparr>last_agent_speech_time := Some now\<rparr>) (strip ev) nc"
    by (rule on_agent_speech_Inr)
  note f = agent_record_Inr(1,2,5,6,7) [OF r] agent_record_events [OF r]
  show "agent_closing_phrases s' =
           agent_closing_phrases s
           @ (if \<exists>keyword \<in> closing_keywords. str_contains keyword (lower (strip ev))
              then [strip ev] else [])"
    unfolding s' by (simp add: events_agent_closing(3) f)
  show "current_question_index s' =
           (if \<exists>keyword \<in> closing_keywords. str_contains keyword (lower (strip ev))
            then max (current_question_index (agent_gap_check s now)) (length (questions s))
            else current_question_index (agent_gap_check s now))"
    unfolding s' by (simp add: agent_closing_index f max_def)
  show "questions_asked s' = questions_asked (agent_gap_check s now)"
    unfolding s' by (simp add: f)
  show "progress_events s' =
           progress_events (agent_gap_check s now)
           @ (if (\<exists>keyword \<in> closing_keywords. str_contains keyword (lower (strip ev)))
                 \<and> current_question_index (agent_gap_check s now) < length (questions s)
                 \<and> call s \<and> agent_user_id s \<noteq> []
              then [ProgressEvent (length (questions s) - 1)
                      (category (questions s ! (length (questions s) - 1)))
                      (expected_questions s)]
              else [])"
    unfolding s' by (simp add: events_agent_closing(2) f)
  show "questions s' = questions s"
    unfolding s' by (simp add: f)
qed

lemma example_closing_facts:
  "agent_gap_check example_start 110 = example_start"
  "agent_closing_phrases example_start = []"
  "agent_closing_phrases example_closed = [''Goodbye'']"
  "strip ''Goodbye'' = ''Goodbye''"
  "current_question_index example_start = 0"
  "current_question_index example_closed = 2"
  "questions_asked example_closed = 0"
  "length (questions example_start) = 2"
  "progress_events example_start = []"
  "progress_events example_closed = [ProgressEvent 1 ''wrap-up'' 2]"
  "call example_start" "agent_user_id example_start \<noteq> []"
  "category (questions example_start ! 1) = ''wrap-up''"
  "expected_questions example_start = 2"
  "check_question_match example_closed ''Why do you want this job?'' = None"
  by code_simp+

lemma example_punctuation_facts:
  "on_agent_speech example_start ''?'' 110 110 = Inr example_punctuation"
  "strip ''?'' = ''?''" "length (strip ''?'') \<le> 1"
  "transcript example_start = []"
  "transcript example_punctuation =
     [\<lparr>speaker = ''agent'', entry_text = ''?'', timestamp = 10\<rparr>]"
  "agent_speech_accumulator example_punctuation = ''?''"
  "transcript_events example_punctuation = [TranscriptEvent ''agent'' ''?'' 10]"
  "transcript_events example_start = []"
  "interview_start_time example_start = Some 100"
  "round2 (fsub 110 100) = 10"
  "agent_speech_accumulator example_start = []"
  "on_user_speech example_asking ''?'' 105 = Inr (check_accumulator_for_question example_asking)"
  "transcript (check_accumulator_for_question example_asking) = transcript example_asking"
  "on_agent_speech example_asking ''  '' 102 102
     = Inr (example_asking\<lparr>last_agent_speech_time := Some 102\<rparr>)"
  "strip ''  '' = []"
  "agent_gap_check example_asking 102 = example_asking"
  "strip ''bye for now'' = ''bye for now''"
  by code_simp+

subsection \<open>The gap check and the flush\<close>

lemma agent_gap_check_gap:
  "accumulator_last_update s = Some last_update \<Longrightarrow>
     fsub now last_update \<le> ACCUMULATOR_GAP_THRESHOLD \<Longrightarrow> agent_gap_check s now = s"
  "accumulator_last_update s = Some last_update \<Longrightarrow>
     ACCUMULATOR_GAP_THRESHOLD < fsub now last_update \<Longrightarrow>
     agent_gap_check s now = check_accumulator_for_question s"
  "accumulator_last_update s = None \<Longrightarrow> agent_gap_check s now = s"
  by (simp_all add: agent_gap_check_def Let_def)

lemma flush_matched:
  assumes "agent_speech_accumulator s \<noteq> []"
    and "check_question_match s (agent_speech_accumulator s) = Some i"
  shows "current_question_index s \<le> i" and "i < length (questions s)"
    and "current_question_index (check_accumulator_for_question s) = i + 1"
    and "questions_asked (check_accumulator_for_question s) = i + 1"
    and "progress_events (check_accumulator_for_question s) =
           progress_events s
           @ (if call s \<and> agent_user_id s \<noteq> []
              then [ProgressEvent i (category (questions s ! i)) (expected_questions s)]
              else [])"
  using assms check_question_match_range [OF assms(2)]
  by (simp_all add: check_accumulator_unfold progress_events_check_accumulator)

lemma flush_unmatched:
  assumes "agent_speech_accumulator s = []
           \<or> check_question_match s (agent_speech_accumulator s) = None"
  shows "current_question_index (check_accumulator_for_question s) = current_question_index s"
    and "questions_asked (check_accumulator_for_question s) = questions_asked s"
    and "progress_events (check_accumulator_for_question s) = progress_events s"
  using assms
  by (auto simp: check_accumulator_unfold progress_events_check_accumulator)

lemma example_fragments:
  "accumulator_last_update example_asking = Some 101"
  "interview_start_time example_asking = Some 100"
  "strip ''and databases'' = ''and databases''"
  "fsub 102 101 = 1" "fsub 104 101 = 3"
  "on_agent_speech example_asking ''and databases'' 102 102 = Inr example_joined"
  "on_agent_speech example_asking ''and databases'' 104 104 = Inr example_flushed"
  "agent_speech_accumulator example_asking = ''So tell me about your experience with systems''"
  "agent_speech_accumulator example_joined
     = ''So tell me about your experience with systems and databases''"
  "agent_speech_accumulator example_flushed = ''and databases''"
  "questions_asked example_asking = 0" "questions_asked example_joined = 0"
  "questions_asked example_flushed = 1" "current_question_index example_flushed = 1"
  "progress_events example_asking = []"
  "progress_events example_flushed = [ProgressEvent 0 ''technical'' 2]"
  "\<not> (\<exists>keyword \<in> closing_keywords. str_contains keyword (lower (strip ''and databases'')))"
  by code_simp+

lemma example_float_gap:
  "(2 :: rat) < 4728779608739021 / 2251799813685248 - 3602879701896397 / 36028797018963968"
  "fsub (4728779608739021 / 2251799813685248) (3602879701896397 / 36028797018963968) = 2"
  "agent_gap_check
     (example_asking\<lparr>accumulator_last_update := Some (3602879701896397 / 36028797018963968)\<rparr>)
     (4728779608739021 / 2251799813685248)
   = example_asking\<lparr>accumulator_last_update := Some (3602879701896397 / 36028797018963968)\<rparr>"
  by code_simp+

section \<open>The claims\<close>

subsection \<open>C1: the completion latch\<close>

text \<open>
  C1. The completion latch goes from unset to set at most once, and the completion
  callback is called exactly once, by the first trigger.

  \<^item> \<open>_mark_complete\<close> leaves the latch set; on a set latch it changes nothing, no effect
    included; on an unset latch it calls the callback once if one was given.
  \<^item> Each trigger reaches the latch: a wait that timed out leaves it set; a user utterance
    with "goodbye" or "bye" is handled without an exception and leaves it set; the agent
    handler leaves it set exactly if it was set before or the utterance has a closing
    keyword and the evaluator finds enough questions or enough time.
  \<^item> Every handler that returns keeps the callback attribute and a set latch, and calls
    the callback once if it took the latch from unset to set and a callback was given,
    and not at all otherwise.
  \<^item> A processor that went through setup handles every sequence of events without an
    exception; at every point of it the callback has been called once if the latch is set
    and a callback was given, and never otherwise; once the latch is set, whatever events
    follow leave it set and call the callback no more.
  \<^item> A sequence of events after setup that has a timed-out wait, or a user utterance
    with "goodbye" or "bye", anywhere in it ends with the latch set and the callback
    called once if one was given.

  The callback is one that returns normally, as everywhere in this model.
\<close>

theorem completion_latch_once:
  "is_complete (mark_complete s r)
   \<and> (is_complete s \<longrightarrow> mark_complete s r = s)
   \<and> callback_calls (mark_complete s r) =
       callback_calls s + (if \<not> is_complete s \<and> completion_callback s then 1 else 0)
   \<and> is_complete (wait_for_completion s timeout TimedOut)
   \<and> (interview_start_time s = Some t1
        \<and> (str_contains ''goodbye'' (lower (strip ev)) \<or> str_contains ''bye'' (lower (strip ev)))
      \<longrightarrow> (\<exists>s'. on_user_speech s ev now = Inr s' \<and> is_complete s'))
   \<and> (on_agent_speech sa eva nowa nc = Inr sa'
      \<longrightarrow> (is_complete sa' \<longleftrightarrow>
            is_complete sa
            \<or> ((\<exists>keyword \<in> closing_keywords. str_contains keyword (lower (strip eva)))
               \<and> (int (expected_questions sa) - 1 \<le> int (questions_asked (agent_gap_check sa nowa))
                  \<or> of_int (minimum_duration_minutes sa) \<le> get_duration_minutes sa nc))))
   \<and> (step a e = Inr b
      \<longrightarrow> completion_callback b = completion_callback a
          \<and> (is_complete a \<longrightarrow> is_complete b)
          \<and> callback_calls b =
              callback_calls a
              + (if \<not> is_complete a \<and> is_complete b \<and> completion_callback a then 1 else 0))
   \<and> (\<exists>s1 s2. run (on_setup (init qs m cb c u) t0) es = Inr s1
        \<and> run (on_setup (init qs m cb c u) t0) (es @ es') = Inr s2
        \<and> callback_calls s1 = (if is_complete s1 \<and> cb then 1 else 0)
        \<and> (is_complete s1 \<longrightarrow> is_complete s2 \<and> callback_calls s2 = callback_calls s1))
   \<and> (\<exists>s3. run (on_setup (init qs m cb c u) t0) (es @ WaitForCompletion timeout TimedOut # es')
               = Inr s3
        \<and> is_complete s3 \<and> callback_calls s3 = (if cb then 1 else 0))
   \<and> (str_contains ''goodbye'' (lower (strip ev)) \<or> str_contains ''bye'' (lower (strip ev))
      \<longrightarrow> (\<exists>s4. run (on_setup (init qs m cb c u) t0) (es @ UserSpeech ev now # es') = Inr s4
             \<and> is_complete s4 \<and> callback_calls s4 = (if cb then 1 else 0)))"
proof -
  let ?s0 = "on_setup (init qs m cb c u) t0"
  have c5: "interview_start_time s = Some t1
        \<and> (str_contains ''goodbye'' (lower (strip ev)) \<or> str_contains ''bye'' (lower (strip ev)))
      \<longrightarrow> (\<exists>s'. on_user_speech s ev now = Inr s' \<and> is_complete s')"
    using is_complete_user_bye by blast
  have c6: "on_agent_speech sa eva nowa nc = Inr sa'
      \<longrightarrow> (is_complete sa' \<longleftrightarrow>
            is_complete sa
            \<or> ((\<exists>keyword \<in> closing_keywords. str_contains keyword (lower (strip eva)))
               \<and> (int (expected_questions sa) - 1 \<le> int (questions_asked (agent_gap_check sa nowa))
                  \<or> of_int (minimum_duration_minutes sa) \<le> get_duration_minutes sa nc)))"
    using is_complete_on_agent_speech_iff by blast
  have c7: "step a e = Inr b
      \<longrightarrow> completion_callback b = completion_callback a
          \<and> (is_complete a \<longrightarrow> is_complete b)
          \<and> callback_calls b =
              callback_calls a
              + (if \<not> is_complete a \<and> is_complete b \<and> completion_callback a then 1 else 0)"
    using step_latch_step [of a e b] unfolding latch_step_def by blast
  have c8: "\<exists>s1 s2. run ?s0 es = Inr s1 \<and> run ?s0 (es @ es') = Inr s2
        \<and> callback_calls s1 = (if is_complete s1 \<and> cb then 1 else 0)
        \<and> (is_complete s1 \<longrightarrow> is_complete s2 \<and> callback_calls s2 = callback_calls s1)"
  proof -
    from run_from_setup [of qs m cb c u t0 es] obtain s1 where
      r1: "run ?s0 es = Inr s1" and t1: "interview_start_time s1 = Some t0"
      and k1: "callback_calls s1 = (if is_complete s1 \<and> cb then 1 else 0)" by blast
    from run_total [OF t1, of es'] obtain s2 where r2: "run s1 es' = Inr s2" by blast
    have r12: "run ?s0 (es @ es') = Inr s2" by (simp add: run_append r1 r2)
    have "is_complete s1 \<longrightarrow> is_complete s2 \<and> callback_calls s2 = callback_calls s1"
      using run_latch_step [OF r2] by (simp add: latch_step_def)
    with r1 r12 k1 show ?thesis by blast
  qed
  have c9: "\<exists>s3. run ?s0 (es @ WaitForCompletion timeout TimedOut # es') = Inr s3
        \<and> is_complete s3 \<and> callback_calls s3 = (if cb then 1 else 0)"
    by (rule run_trigger) (simp add: is_complete_wait_timeout)
  have c10: "str_contains ''goodbye'' (lower (strip ev)) \<or> str_contains ''bye'' (lower (strip ev))
      \<longrightarrow> (\<exists>s4. run ?s0 (es @ UserSpeech ev now # es') = Inr s4
             \<and> is_complete s4 \<and> callback_calls s4 = (if cb then 1 else 0))"
  proof
    assume bye: "str_contains ''goodbye'' (lower (strip ev)) \<or> str_contains ''bye'' (lower (strip ev))"
    show "\<exists>s4. run ?s0 (es @ UserSpeech ev now # es') = Inr s4
             \<and> is_complete s4 \<and> callback_calls s4 = (if cb then 1 else 0)"
      by (rule run_trigger) (simp add: is_complete_user_bye [OF _ bye])
  qed
  have c123: "is_complete (mark_complete s r)" "is_complete s \<longrightarrow> mark_complete s r = s"
    "callback_calls (mark_complete s r) =
       callback_calls s + (if \<not> is_complete s \<and> completion_callback s then 1 else 0)"
    "is_complete (wait_for_completion s timeout TimedOut)"
    by (simp_all add: mark_complete_noop callback_calls_mark_complete is_complete_wait_timeout)
  show ?thesis
    by (intro conjI c123 c5 c6 c7 c8 c9 c10)
qed

theorem completion_latch_once_witness:
  "interview_start_time example_closed = Some 100
   \<and> str_contains ''bye'' (lower (strip ''bye for now''))
   \<and> on_agent_speech example_start ''Goodbye'' 110 110 = Inr example_closed
   \<and> \<not> is_complete example_closed
   \<and> step example_closed (UserSpeech ''bye for now'' 120) = Inr example_done
   \<and> is_complete example_done
   \<and> callback_calls example_closed = 0
   \<and> callback_calls example_done = 1
   \<and> mark_complete example_done (TimeoutAfter 15) = example_done
   \<and> run example_start
        [AgentSpeech ''Goodbye'' 110 110, UserSpeech ''bye for now'' 120,
         WaitForCompletion 900 TimedOut] = Inr example_done"
  using completion_latch_once [of example_done "TimeoutAfter 15" 900 100 "''bye for now''" 120
      example_start "''Goodbye''" 110 110 example_closed
      example_closed "UserSpeech ''bye for now'' 120" example_done
      example_questions 8 True True "''agent-1''" 100 "[AgentSpeech ''Goodbye'' 110 110]"
      "[WaitForCompletion 900 TimedOut]"]
    example_closed_step example_done_step example_run example_done_facts
  by simp

subsection \<open>C10: the question count and the cursor\<close>

text \<open>
  C10. \<open>questions_asked \<le> current_question_index\<close> holds of a processor as constructed, and
  every handler that returns keeps it, so it holds after every sequence of events that
  follows setup. A flush of the accumulator whose matcher finds question \<open>i\<close> sets both
  fields to \<open>i + 1\<close>. The closing-phrase block of the agent handler, with the cursor
  before the end of the question list, moves the cursor to the number of questions, and
  it never changes \<open>questions_asked\<close>.
\<close>

theorem questions_asked_le_index:
  "progress_inv (init qs m cb c u)
   \<and> (progress_inv s \<and> step s e = Inr s' \<longrightarrow> progress_inv s')
   \<and> (agent_speech_accumulator s \<noteq> []
        \<and> check_question_match s (agent_speech_accumulator s) = Some i
      \<longrightarrow> current_question_index (check_accumulator_for_question s) = Suc i
          \<and> questions_asked (check_accumulator_for_question s) = Suc i)
   \<and> ((\<exists>keyword \<in> closing_keywords. str_contains keyword (lower txt))
        \<and> current_question_index s < length (questions s)
      \<longrightarrow> current_question_index (agent_closing s txt nc) = length (questions s))
   \<and> questions_asked (agent_closing s txt nc) = questions_asked s
   \<and> (\<exists>s1. run (on_setup (init qs m cb c u) t0) es = Inr s1 \<and> progress_inv s1)"
proof -
  have a: "progress_inv s \<and> step s e = Inr s' \<longrightarrow> progress_inv s'"
    using step_progress(1) by blast
  have b: "agent_speech_accumulator s \<noteq> []
        \<and> check_question_match s (agent_speech_accumulator s) = Some i
      \<longrightarrow> current_question_index (check_accumulator_for_question s) = Suc i
          \<and> questions_asked (check_accumulator_for_question s) = Suc i"
    by (auto simp: check_accumulator_unfold dest: check_question_match_range)
  have t: "interview_start_time (on_setup (init qs m cb c u) t0) = Some t0"
    by (simp add: on_setup_def)
  from run_total [OF t, of es] obtain s1 where
    r: "run (on_setup (init qs m cb c u) t0) es = Inr s1" by blast
  have d: "\<exists>s1. run (on_setup (init qs m cb c u) t0) es = Inr s1 \<and> progress_inv s1"
    using r run_progress(1) [OF r progress_inv_init(2)] by blast
  show ?thesis
    using a b d by (simp add: progress_inv_init agent_closing_index)
qed

theorem questions_asked_le_index_witness:
  "progress_inv example_asking
   \<and> step example_asking (UserSpeech ''Well, I built one.'' 105) = Inr example_answered
   \<and> progress_inv example_answered
   \<and> agent_speech_accumulator example_asking \<noteq> []
   \<and> check_question_match example_asking (agent_speech_accumulator example_asking) = Some 0
   \<and> current_question_index (check_accumulator_for_question example_asking) = 1
   \<and> questions_asked (check_accumulator_for_question example_asking) = 1
   \<and> (\<exists>keyword \<in> closing_keywords. str_contains keyword (lower ''Thank you for your time''))
   \<and> current_question_index example_asking < length (questions example_asking)
   \<and> current_question_index (agent_closing example_asking ''Thank you for your time'' 130) = 2
   \<and> questions_asked (agent_closing example_asking ''Thank you for your time'' 130) = 0"
  using questions_asked_le_index [of "[]" 8 False False "[]" example_asking
      "UserSpeech ''Well, I built one.'' 105" example_answered 0 "''Thank you for your time''" 130
      0 "[]"]
    example_asking_step example_answered_step example_asking_match example_closing
    example_progress
  by (simp add: example_asking_def example_start_def example_questions_def on_setup_def init_def)

subsection \<open>C4: the cursor and the question count never go back\<close>



subsection \<open>C2: the completion evaluator\<close>

text \<open>
  C2. \<open>_check_completion\<close> leaves the latch set exactly if it was set before or at least
  one closing phrase has been seen and the number of questions asked is at least the
  number expected minus one or the duration in minutes is at least the minimum. When
  that condition fails it changes nothing. When it holds on an unset latch, it logs the
  completion with the reasons that apply, and calls the callback if one was given. The
  duration is the float quotient by 60 of the float difference between the clock reading
  and the start time, for a start time other than zero. In particular, with a closing
  phrase seen, no question asked, fewer than the expected number minus one asked and a
  duration below the minimum, the latch stays unset; with a closing phrase seen and the
  expected number minus one asked, the latch is set.
\<close>

theorem check_completion_decision:
  "(is_complete (check_completion s now) \<longleftrightarrow>
      is_complete s
      \<or> (agent_closing_phrases s \<noteq> []
         \<and> (int (expected_questions s) - 1 \<le> int (questions_asked s)
            \<or> of_int (minimum_duration_minutes s) \<le> get_duration_minutes s now)))
   \<and> (\<not> (agent_closing_phrases s \<noteq> []
          \<and> (int (expected_questions s) - 1 \<le> int (questions_asked s)
             \<or> of_int (minimum_duration_minutes s) \<le> get_duration_minutes s now))
      \<longrightarrow> check_completion s now = s)
   \<and> (\<not> is_complete s \<and> agent_closing_phrases s \<noteq> []
        \<and> (int (expected_questions s) - 1 \<le> int (questions_asked s)
           \<or> of_int (minimum_duration_minutes s) \<le> get_duration_minutes s now)
      \<longrightarrow> effects (check_completion s now) =
            effects s
            @ MarkedComplete
                (Evaluated
                   ([AgentSaidGoodbye]
                    @ (if int (expected_questions s) - 1 \<le> int (questions_asked s)
                       then [AskedQuestions (questions_asked s)] else [])
                    @ (if of_int (minimum_duration_minutes s) \<le> get_duration_minutes s now
                       then [MinDuration (get_duration_minutes s now)] else [])))
            # (if completion_callback s then [CompletionCallback] else []))
   \<and> (interview_start_time s = Some t0 \<and> t0 \<noteq> 0
      \<longrightarrow> get_duration_minutes s now = fdiv (fsub now t0) 60)
   \<and> (\<not> is_complete s \<and> agent_closing_phrases s \<noteq> [] \<and> questions_asked s = 0
        \<and> int (questions_asked s) < int (expected_questions s) - 1
        \<and> get_duration_minutes s now < of_int (minimum_duration_minutes s)
      \<longrightarrow> \<not> is_complete (check_completion s now))
   \<and> (agent_closing_phrases s \<noteq> [] \<and> int (questions_asked s) = int (expected_questions s) - 1
      \<longrightarrow> is_complete (check_completion s now))"
proof -
  have a: "\<not> (agent_closing_phrases s \<noteq> []
          \<and> (int (expected_questions s) - 1 \<le> int (questions_asked s)
             \<or> of_int (minimum_duration_minutes s) \<le> get_duration_minutes s now))
      \<longrightarrow> check_completion s now = s"
    by (simp add: check_completion_eq)
  have b: "\<not> is_complete s \<and> agent_closing_phrases s \<noteq> []
        \<and> (int (expected_questions s) - 1 \<le> int (questions_asked s)
           \<or> of_int (minimum_duration_minutes s) \<le> get_duration_minutes s now)
      \<longrightarrow> effects (check_completion s now) =
            effects s
            @ MarkedComplete
                (Evaluated
                   ([AgentSaidGoodbye]
                    @ (if int (expected_questions s) - 1 \<le> int (questions_asked s)
                       then [AskedQuestions (questions_asked s)] else [])
                    @ (if of_int (minimum_duration_minutes s) \<le> get_duration_minutes s now
                       then [MinDuration (get_duration_minutes s now)] else [])))
            # (if completion_callback s then [CompletionCallback] else [])"
    by (simp add: effects_check_completion)
  have c: "interview_start_time s = Some t0 \<and> t0 \<noteq> 0
      \<longrightarrow> get_duration_minutes s now = fdiv (fsub now t0) 60"
    by (simp add: get_duration_minutes_cases)
  have d: "\<not> is_complete s \<and> agent_closing_phrases s \<noteq> [] \<and> questions_asked s = 0
        \<and> int (questions_asked s) < int (expected_questions s) - 1
        \<and> get_duration_minutes s now < of_int (minimum_duration_minutes s)
      \<longrightarrow> \<not> is_complete (check_completion s now)"
    by (simp add: is_complete_check_completion_iff)
  have e: "agent_closing_phrases s \<noteq> [] \<and> int (questions_asked s) = int (expected_questions s) - 1
      \<longrightarrow> is_complete (check_completion s now)"
    by (simp add: is_complete_check_completion_iff)
  show ?thesis
    by (intro conjI is_complete_check_completion_iff a b c d e)
qed

theorem check_completion_decision_witness:
  "\<not> is_complete example_closed
   \<and> agent_closing_phrases example_closed \<noteq> []
   \<and> questions_asked example_closed = 0
   \<and> int (questions_asked example_closed) < int (expected_questions example_closed) - 1
   \<and> get_duration_minutes example_closed 110 < of_int (minimum_duration_minutes example_closed)
   \<and> check_completion example_closed 110 = example_closed
   \<and> interview_start_time example_closed = Some 100
   \<and> get_duration_minutes example_closed 700 = fdiv (fsub 700 100) 60
   \<and> of_int (minimum_duration_minutes example_closed) \<le> get_duration_minutes example_closed 700
   \<and> is_complete (check_completion example_closed 700)
   \<and> effects (check_completion example_closed 700) =
       effects example_closed
       @ [MarkedComplete (Evaluated [AgentSaidGoodbye, MinDuration 10]), CompletionCallback]"
  using check_completion_decision [of example_closed 110 100]
    check_completion_decision [of example_closed 700 100]
    example_evaluator example_done_facts
  by simp

subsection \<open>C7: the user's goodbye\<close>

text \<open>
  C7. After setup, a user utterance whose trimmed, lower-cased text contains "goodbye"
  or "bye" is handled without an exception and leaves the latch set, whatever the closing
  phrases, the question count and the duration are; on an unset latch the handler ends
  by logging the completion with the reason "User said goodbye" and calling the callback
  if one was given. The user handler leaves the latch set only if it was set before or
  the text contains one of the two words; the evaluator is not consulted: the goodbye
  block is \<open>_mark_complete\<close> itself.
\<close>

theorem user_goodbye_completes:
  "(interview_start_time s = Some t0
      \<and> (str_contains ''goodbye'' (lower (strip ev)) \<or> str_contains ''bye'' (lower (strip ev)))
    \<longrightarrow> (\<exists>s'. on_user_speech s ev now = Inr s' \<and> is_complete s'
           \<and> (\<not> is_complete s
               \<longrightarrow> (\<exists>before. effects s' =
                      before @ MarkedComplete UserSaidGoodbye
                               # (if completion_callback s then [CompletionCallback] else [])))))
   \<and> (on_user_speech s ev now = Inr s'
      \<longrightarrow> (is_complete s' \<longleftrightarrow>
            is_complete s
            \<or> str_contains ''goodbye'' (lower (strip ev)) \<or> str_contains ''bye'' (lower (strip ev))))
   \<and> (str_contains ''goodbye'' (lower txt) \<or> str_contains ''bye'' (lower txt)
      \<longrightarrow> user_goodbye s txt = mark_complete s UserSaidGoodbye)"
proof -
  have a: "interview_start_time s = Some t0
      \<and> (str_contains ''goodbye'' (lower (strip ev)) \<or> str_contains ''bye'' (lower (strip ev)))
    \<longrightarrow> (\<exists>s'. on_user_speech s ev now = Inr s' \<and> is_complete s'
           \<and> (\<not> is_complete s
               \<longrightarrow> (\<exists>before. effects s' =
                      before @ MarkedComplete UserSaidGoodbye
                               # (if completion_callback s then [CompletionCallback] else []))))"
  proof
    assume h: "interview_start_time s = Some t0
      \<and> (str_contains ''goodbye'' (lower (strip ev)) \<or> str_contains ''bye'' (lower (strip ev)))"
    then obtain s' where r: "on_user_speech s ev now = Inr s'" and c: "is_complete s'"
      using is_complete_user_bye [of s t0 ev now] by blast
    have "\<not> is_complete s
               \<longrightarrow> (\<exists>before. effects s' =
                      before @ MarkedComplete UserSaidGoodbye
                               # (if completion_callback s then [CompletionCallback] else []))"
      using effects_on_user_speech_bye [OF r] h by blast
    with r c show "\<exists>s'. on_user_speech s ev now = Inr s' \<and> is_complete s'
           \<and> (\<not> is_complete s
               \<longrightarrow> (\<exists>before. effects s' =
                      before @ MarkedComplete UserSaidGoodbye
                               # (if completion_callback s then [CompletionCallback] else [])))"
      by blast
  qed
  have b: "on_user_speech s ev now = Inr s'
      \<longrightarrow> (is_complete s' \<longleftrightarrow>
            is_complete s
            \<or> str_contains ''goodbye'' (lower (strip ev)) \<or> str_contains ''bye'' (lower (strip ev)))"
    using is_complete_on_user_speech_iff by blast
  have c: "str_contains ''goodbye'' (lower txt) \<or> str_contains ''bye'' (lower txt)
      \<longrightarrow> user_goodbye s txt = mark_complete s UserSaidGoodbye"
    by (simp add: user_goodbye_def)
  show ?thesis by (intro conjI a b c)
qed

theorem user_goodbye_completes_witness:
  "interview_start_time example_closed = Some 100
   \<and> str_contains ''bye'' (lower (strip ''bye for now''))
   \<and> \<not> is_complete example_closed
   \<and> check_completion example_closed 120 = example_closed
   \<and> on_user_speech example_closed ''bye for now'' 120 = Inr example_done
   \<and> is_complete example_done
   \<and> effects example_done =
       effects example_closed
       @ [TranscriptEvent ''user'' ''bye for now'' 20, MarkedComplete UserSaidGoodbye,
          CompletionCallback]"
  using user_goodbye_completes [of example_closed 100 "''bye for now''" 120 example_done
      "strip ''bye for now''"]
    example_bye example_done_facts
  by simp

subsection \<open>C8: waiting for completion\<close>

text \<open>
  C8. \<open>wait_for_completion\<close> changes nothing when the wait ends because the latch is
  set. When the wait times out it is \<open>_mark_complete\<close> with the reason "timeout after
  timeout/60 minutes": the latch is set afterwards; on an unset latch the completion is
  logged with that reason and the callback is called if one was given; on a set latch
  nothing changes. The default timeout is 900 seconds, which is 15 minutes.
\<close>

theorem wait_for_completion_timeout:
  "wait_for_completion s timeout LatchSet = s
   \<and> wait_for_completion s timeout TimedOut = mark_complete s (TimeoutAfter (fdiv timeout 60))
   \<and> is_complete (wait_for_completion s timeout TimedOut)
   \<and> (\<not> is_complete s
      \<longrightarrow> effects (wait_for_completion s timeout TimedOut) =
            effects s @ MarkedComplete (TimeoutAfter (fdiv timeout 60))
                       # (if completion_callback s then [CompletionCallback] else []))
   \<and> (is_complete s \<longrightarrow> wait_for_completion s timeout TimedOut = s)
   \<and> default_timeout = 900
   \<and> fdiv default_timeout 60 = 15"
proof -
  have a: "default_timeout = 900" by (simp add: default_timeout_def)
  have b: "wait_for_completion s timeout TimedOut = mark_complete s (TimeoutAfter (fdiv timeout 60))"
    "wait_for_completion s timeout LatchSet = s"
    by (simp_all add: wait_for_completion_def)
  show ?thesis
    unfolding b
    by (intro conjI refl a fdiv_default_timeout)
      (simp_all add: mark_complete_effects mark_complete_noop)
qed

theorem wait_for_completion_timeout_witness:
  "\<not> is_complete example_closed
   \<and> is_complete (wait_for_completion example_closed default_timeout TimedOut)
   \<and> effects (wait_for_completion example_closed default_timeout TimedOut) =
       effects example_closed @ [MarkedComplete (TimeoutAfter 15), CompletionCallback]
   \<and> is_complete example_done
   \<and> wait_for_completion example_done default_timeout TimedOut = example_done"
  using wait_for_completion_timeout [of example_closed default_timeout]
    wait_for_completion_timeout [of example_done default_timeout]
    example_timeout example_done_facts
  by simp

subsection \<open>C5: a closing phrase of the agent\<close>

text \<open>
  C5, as the code has it. An agent utterance that the handler returns from and whose
  trimmed, lower-cased text contains a closing keyword is appended, trimmed, to the
  closing phrases. The cursor becomes the larger of the number of questions and of what it
  was after the gap check: when it was before the end of the question list it is set to
  the number of questions, which is one more than the index of the last question, and
  not to that index. From then on the matcher finds no question, whatever the text. The
  question count is not changed by the closing block. When the cursor was before the end
  of the list, a progress notification for the index of the last question, with its
  category, is handed to the call, provided a call and an agent user id are configured.
  An utterance without a closing keyword changes neither the closing phrases nor the
  cursor, and sends no progress notification, beyond what the gap check did.

  The last theorem of this subsection is the counterexample to the cursor being set to the index of the
  last question: with two questions and the cursor at 0, the agent's "Goodbye" leaves
  the cursor at 2, and the index of the last question is 1.
\<close>

theorem closing_phrase_advances_cursor:
  "(on_agent_speech s ev now nc = Inr s'
      \<and> (\<exists>keyword \<in> closing_keywords. str_contains keyword (lower (strip ev)))
    \<longrightarrow> agent_closing_phrases s' = agent_closing_phrases s @ [strip ev]
        \<and> current_question_index s' =
            max (current_question_index (agent_gap_check s now)) (length (questions s))
        \<and> questions_asked s' = questions_asked (agent_gap_check s now)
        \<and> check_question_match s' t = None
        \<and> progress_events s' =
            progress_events (agent_gap_check s now)
            @ (if current_question_index (agent_gap_check s now) < length (questions s)
                  \<and> call s \<and> agent_user_id s \<noteq> []
               then [ProgressEvent (length (questions s) - 1)
                       (category (questions s ! (length (questions s) - 1)))
                       (expected_questions s)]
               else []))
   \<and> (on_agent_speech s ev now nc = Inr s'
        \<and> \<not> (\<exists>keyword \<in> closing_keywords. str_contains keyword (lower (strip ev)))
      \<longrightarrow> agent_closing_phrases s' = agent_closing_phrases s
          \<and> current_question_index s' = current_question_index (agent_gap_check s now)
          \<and> progress_events s' = progress_events (agent_gap_check s now))"
proof -
  have a: "agent_closing_phrases s' = agent_closing_phrases s @ [strip ev]
        \<and> current_question_index s' =
            max (current_question_index (agent_gap_check s now)) (length (questions s))
        \<and> questions_asked s' = questions_asked (agent_gap_check s now)
        \<and> check_question_match s' t = None
        \<and> progress_events s' =
            progress_events (agent_gap_check s now)
            @ (if current_question_index (agent_gap_check s now) < length (questions s)
                  \<and> call s \<and> agent_user_id s \<noteq> []
               then [ProgressEvent (length (questions s) - 1)
                       (category (questions s ! (length (questions s) - 1)))
                       (expected_questions s)]
               else [])"
    if r: "on_agent_speech s ev now nc = Inr s'"
      and k: "\<exists>keyword \<in> closing_keywords. str_contains keyword (lower (strip ev))"
  proof -
    note f = on_agent_speech_closing [OF r]
    have c: "current_question_index s' =
            max (current_question_index (agent_gap_check s now)) (length (questions s))"
      using f(2) k by simp
    then have "length (questions s') \<le> current_question_index s'" using f(5) by simp
    then have m: "check_question_match s' t = None" by (simp add: check_question_match_def)
    show ?thesis using f(1,3,4) k c m by simp
  qed
  have b: "agent_closing_phrases s' = agent_closing_phrases s
          \<and> current_question_index s' = current_question_index (agent_gap_check s now)
          \<and> progress_events s' = progress_events (agent_gap_check s now)"
    if r: "on_agent_speech s ev now nc = Inr s'"
      and k: "\<not> (\<exists>keyword \<in> closing_keywords. str_contains keyword (lower (strip ev)))"
    using on_agent_speech_closing(1,2,4) [OF r] k by simp
  show ?thesis using a b by blast
qed

theorem closing_phrase_advances_cursor_witness:
  "on_agent_speech example_start ''Goodbye'' 110 110 = Inr example_closed
   \<and> (\<exists>keyword \<in> closing_keywords. str_contains keyword (lower (strip ''Goodbye'')))
   \<and> agent_closing_phrases example_closed = [''Goodbye'']
   \<and> length (questions example_start) = 2
   \<and> current_question_index example_closed = 2
   \<and> questions_asked example_closed = 0
   \<and> check_question_match example_closed ''Why do you want this job?'' = None
   \<and> progress_events example_closed = [ProgressEvent 1 ''wrap-up'' 2]"
  using closing_phrase_advances_cursor [of example_start "''Goodbye''" 110 110 example_closed
      "''Why do you want this job?''"]
    example_closed_step example_done_facts example_closing_facts
  by simp

theorem closing_phrase_cursor_counterexample:
  "on_agent_speech example_start ''Goodbye'' 110 110 = Inr example_closed
   \<and> (\<exists>keyword \<in> closing_keywords. str_contains keyword (lower (strip ''Goodbye'')))
   \<and> current_question_index example_start < length (questions example_start)
   \<and> length (questions example_start) - 1 = 1
   \<and> current_question_index example_closed = 2
   \<and> current_question_index example_closed \<noteq> length (questions example_start) - 1"
  using example_closed_step example_done_facts example_closing_facts by simp

subsection \<open>C9: empty and one-character texts\<close>

text \<open>
  C9, as the code has it. The agent handler skips a text only if it is empty after
  trimming: then the transcript, the transcript notifications and the time of the last
  accumulator update are what they were, and nothing is added to the accumulator (a gap
  flush may still clear it). After setup every other agent text, one character long or
  longer, is appended to the transcript, notified, and added to the accumulator. The user
  handler skips a text of length at most one after trimming: the handler is then the
  flush of the accumulator and nothing else, so the transcript and the transcript
  notifications are what they were. After setup a longer user text is appended to the
  transcript and notified. No user text is ever added to the accumulator, which is empty
  after every user event.

  The last theorem of this subsection is the counterexample to one-character texts being skipped for
  both speakers: after setup the agent's "?" is in the transcript, is notified, and is
  in the accumulator.
\<close>

theorem degenerate_text_skipped:
  "(strip ev = []
    \<longrightarrow> on_agent_speech s ev now nc
          = Inr ((agent_gap_check s now)\<lparr>last_agent_speech_time := Some now\<rparr>)
        \<and> transcript ((agent_gap_check s now)\<lparr>last_agent_speech_time := Some now\<rparr>)
            = transcript s
        \<and> transcript_events ((agent_gap_check s now)\<lparr>last_agent_speech_time := Some now\<rparr>)
            = transcript_events s
        \<and> agent_speech_accumulator ((agent_gap_check s now)\<lparr>last_agent_speech_time := Some now\<rparr>)
            = agent_speech_accumulator (agent_gap_check s now)
        \<and> accumulator_last_update ((agent_gap_check s now)\<lparr>last_agent_speech_time := Some now\<rparr>)
            = accumulator_last_update s)
   \<and> (interview_start_time s = Some t0 \<and> strip ev \<noteq> []
      \<longrightarrow> (\<exists>s'. on_agent_speech s ev now nc = Inr s'
            \<and> transcript s' = transcript s @
                 [\<lparr>speaker = ''agent'', entry_text = strip ev,
                   timestamp = round2 (fsub now t0)\<rparr>]
            \<and> transcript_events s' =
                 transcript_events s
                 @ (if call s \<and> agent_user_id s \<noteq> []
                    then [TranscriptEvent ''agent'' (strip ev) (round2 (fsub now t0))] else [])
            \<and> agent_speech_accumulator s' =
                 (if agent_speech_accumulator (agent_gap_check s now) = [] then strip ev
                  else agent_speech_accumulator (agent_gap_check s now) @ '' '' @ strip ev)))
   \<and> (length (strip ev) \<le> 1
      \<longrightarrow> on_user_speech s ev now = Inr (check_accumulator_for_question s)
          \<and> transcript (check_accumulator_for_question s) = transcript s
          \<and> transcript_events (check_accumulator_for_question s) = transcript_events s
          \<and> agent_speech_accumulator (check_accumulator_for_question s) = [])
   \<and> (interview_start_time s = Some t0 \<and> 1 < length (strip ev)
      \<longrightarrow> (\<exists>s'. on_user_speech s ev now = Inr s'
            \<and> transcript s' = transcript s @
                 [\<lparr>speaker = ''user'', entry_text = strip ev,
                   timestamp = round2 (fsub now t0)\<rparr>]
            \<and> transcript_events s' =
                 transcript_events s
                 @ (if call s \<and> agent_user_id s \<noteq> []
                    then [TranscriptEvent ''user'' (strip ev) (round2 (fsub now t0))] else [])
            \<and> agent_speech_accumulator s' = []))"
proof -
  have a: "strip ev = []
    \<longrightarrow> on_agent_speech s ev now nc
          = Inr ((agent_gap_check s now)\<lparr>last_agent_speech_time := Some now\<rparr>)
        \<and> transcript ((agent_gap_check s now)\<lparr>last_agent_speech_time := Some now\<rparr>)
            = transcript s
        \<and> transcript_events ((agent_gap_check s now)\<lparr>last_agent_speech_time := Some now\<rparr>)
            = transcript_events s
        \<and> agent_speech_accumulator ((agent_gap_check s now)\<lparr>last_agent_speech_time := Some now\<rparr>)
            = agent_speech_accumulator (agent_gap_check s now)
        \<and> accumulator_last_update ((agent_gap_check s now)\<lparr>last_agent_speech_time := Some now\<rparr>)
            = accumulator_last_update s"
    by (simp add: on_agent_speech_empty)
  have b: "interview_start_time s = Some t0 \<and> strip ev \<noteq> []
      \<longrightarrow> (\<exists>s'. on_agent_speech s ev now nc = Inr s'
            \<and> transcript s' = transcript s @
                 [\<lparr>speaker = ''agent'', entry_text = strip ev,
                   timestamp = round2 (fsub now t0)\<rparr>]
            \<and> transcript_events s' =
                 transcript_events s
                 @ (if call s \<and> agent_user_id s \<noteq> []
                    then [TranscriptEvent ''agent'' (strip ev) (round2 (fsub now t0))] else [])
            \<and> agent_speech_accumulator s' =
                 (if agent_speech_accumulator (agent_gap_check s now) = [] then strip ev
                  else agent_speech_accumulator (agent_gap_check s now) @ '' '' @ strip ev))"
    using on_agent_speech_nonempty [of s t0 ev now nc] by blast
  have c: "length (strip ev) \<le> 1
      \<longrightarrow> on_user_speech s ev now = Inr (check_accumulator_for_question s)
          \<and> transcript (check_accumulator_for_question s) = transcript s
          \<and> transcript_events (check_accumulator_for_question s) = transcript_events s
          \<and> agent_speech_accumulator (check_accumulator_for_question s) = []"
    by (simp add: on_user_speech_short)
  have d: "interview_start_time s = Some t0 \<and> 1 < length (strip ev)
      \<longrightarrow> (\<exists>s'. on_user_speech s ev now = Inr s'
            \<and> transcript s' = transcript s @
                 [\<lparr>speaker = ''user'', entry_text = strip ev,
                   timestamp = round2 (fsub now t0)\<rparr>]
            \<and> transcript_events s' =
                 transcript_events s
                 @ (if call s \<and> agent_user_id s \<noteq> []
                    then [TranscriptEvent ''user'' (strip ev) (round2 (fsub now t0))] else [])
            \<and> agent_speech_accumulator s' = [])"
    using on_user_speech_long [of s t0 ev now] by blast
  show ?thesis by (intro conjI a b c d)
qed

theorem degenerate_text_skipped_witness:
  "strip ''  '' = []
   \<and> on_agent_speech example_asking ''  '' 102 102
       = Inr (example_asking\<lparr>last_agent_speech_time := Some 102\<rparr>)
   \<and> length (strip ''?'') \<le> 1
   \<and> on_user_speech example_asking ''?'' 105 = Inr (check_accumulator_for_question example_asking)
   \<and> transcript (check_accumulator_for_question example_asking) = transcript example_asking
   \<and> interview_start_time example_start = Some 100
   \<and> strip ''?'' \<noteq> []
   \<and> on_agent_speech example_start ''?'' 110 110 = Inr example_punctuation
   \<and> transcript example_punctuation =
       [\<lparr>speaker = ''agent'', entry_text = ''?'', timestamp = 10\<rparr>]
   \<and> interview_start_time example_closed = Some 100
   \<and> 1 < length (strip ''bye for now'')
   \<and> on_user_speech example_closed ''bye for now'' 120 = Inr example_done"
  using degenerate_text_skipped [of "''  ''" example_asking 102 102 100]
    degenerate_text_skipped [of "''?''" example_asking 105 105 100]
    degenerate_text_skipped [of "''?''" example_start 110 110 100]
    degenerate_text_skipped [of "''bye for now''" example_closed 120 120 100]
    example_punctuation_facts example_bye(1) example_done_facts
  by simp

theorem degenerate_text_counterexample:
  "length (strip ''?'') \<le> 1
   \<and> on_agent_speech example_start ''?'' 110 110 = Inr example_punctuation
   \<and> transcript example_start = []
   \<and> transcript example_punctuation =
       [\<lparr>speaker = ''agent'', entry_text = ''?'', timestamp = 10\<rparr>]
   \<and> transcript_events example_punctuation = [TranscriptEvent ''agent'' ''?'' 10]
   \<and> agent_speech_accumulator example_start = []
   \<and> agent_speech_accumulator example_punctuation = ''?''"
  using example_punctuation_facts by simp

subsection \<open>C6: consecutive agent fragments\<close>

text \<open>
  C6. Take a processor after setup whose accumulator was last updated at some clock
  reading, and an agent fragment that is not empty after trimming. The gap is the float
  difference between the clock reading of the fragment and that of the last update.

  \<^item> When the gap is at most 2.0, the handler returns, and the fragment is joined to the
    buffer with one space (it is the buffer when the buffer was empty); the question
    count is unchanged, and so is the cursor unless the fragment has a closing keyword.
  \<^item> When the gap is above 2.0, the handler returns, and the buffer is the fragment alone:
    the old buffer was flushed before the fragment was buffered. The question count is
    the one the flush left, the cursor too unless the fragment has a closing keyword, and
    the progress notifications start with those the flush left.
  \<^item> A flush of a buffer in which the matcher finds question \<open>i\<close>, which is at or after
    the cursor, sets the cursor and the question count to \<open>i + 1\<close> and hands one progress
    notification for \<open>i\<close> to the call, when a call and an agent user id are configured.
  \<^item> A flush of an empty buffer, or of one in which the matcher finds nothing, changes
    neither the cursor nor the question count and sends no progress notification.
  \<^item> After a flush the buffer is empty, matched or not.

  A fragment that is empty after trimming does not update the time of the last update,
  so the gap is taken from the last fragment that was not empty.
\<close>

theorem accumulator_gap_flush:
  "(accumulator_last_update s = Some last_update \<and> interview_start_time s = Some t0
      \<and> strip ev \<noteq> [] \<and> fsub now last_update \<le> ACCUMULATOR_GAP_THRESHOLD
    \<longrightarrow> (\<exists>s'. on_agent_speech s ev now nc = Inr s'
          \<and> agent_speech_accumulator s' =
              (if agent_speech_accumulator s = [] then strip ev
               else agent_speech_accumulator s @ '' '' @ strip ev)
          \<and> questions_asked s' = questions_asked s
          \<and> current_question_index s' =
              (if \<exists>keyword \<in> closing_keywords. str_contains keyword (lower (strip ev))
               then max (current_question_index s) (length (questions s))
               else current_question_index s)
          \<and> accumulator_last_update s' = Some now))
   \<and> (accumulator_last_update s = Some last_update \<and> interview_start_time s = Some t0
        \<and> strip ev \<noteq> [] \<and> ACCUMULATOR_GAP_THRESHOLD < fsub now last_update
      \<longrightarrow> (\<exists>s'. on_agent_speech s ev now nc = Inr s'
            \<and> agent_speech_accumulator s' = strip ev
            \<and> questions_asked s' = questions_asked (check_accumulator_for_question s)
            \<and> current_question_index s' =
                (if \<exists>keyword \<in> closing_keywords. str_contains keyword (lower (strip ev))
                 then max (current_question_index (check_accumulator_for_question s))
                        (length (questions s))
                 else current_question_index (check_accumulator_for_question s))
            \<and> (\<exists>closing. progress_events s' =
                   progress_events (check_accumulator_for_question s) @ closing)
            \<and> accumulator_last_update s' = Some now))
   \<and> (agent_speech_accumulator s \<noteq> []
        \<and> check_question_match s (agent_speech_accumulator s) = Some i
      \<longrightarrow> current_question_index s \<le> i
          \<and> current_question_index (check_accumulator_for_question s) = i + 1
          \<and> questions_asked (check_accumulator_for_question s) = i + 1
          \<and> progress_events (check_accumulator_for_question s) =
              progress_events s
              @ (if call s \<and> agent_user_id s \<noteq> []
                 then [ProgressEvent i (category (questions s ! i)) (expected_questions s)]
                 else []))
   \<and> (agent_speech_accumulator s = []
        \<or> check_question_match s (agent_speech_accumulator s) = None
      \<longrightarrow> current_question_index (check_accumulator_for_question s) = current_question_index s
          \<and> questions_asked (check_accumulator_for_question s) = questions_asked s
          \<and> progress_events (check_accumulator_for_question s) = progress_events s)
   \<and> agent_speech_accumulator (check_accumulator_for_question s) = []
   \<and> ACCUMULATOR_GAP_THRESHOLD = 2"
proof -
  have a: "\<exists>s'. on_agent_speech s ev now nc = Inr s'
          \<and> agent_speech_accumulator s' =
              (if agent_speech_accumulator s = [] then strip ev
               else agent_speech_accumulator s @ '' '' @ strip ev)
          \<and> questions_asked s' = questions_asked s
          \<and> current_question_index s' =
              (if \<exists>keyword \<in> closing_keywords. str_contains keyword (lower (strip ev))
               then max (current_question_index s) (length (questions s))
               else current_question_index s)
          \<and> accumulator_last_update s' = Some now"
    if h: "accumulator_last_update s = Some last_update" "interview_start_time s = Some t0"
      "strip ev \<noteq> []" "fsub now last_update \<le> ACCUMULATOR_GAP_THRESHOLD"
  proof -
    have g: "agent_gap_check s now = s" using agent_gap_check_gap(1) [OF h(1,4)] .
    from on_agent_speech_nonempty [OF h(2,3), of now nc] obtain s' where
      r: "on_agent_speech s ev now nc = Inr s'"
      and f: "agent_speech_accumulator s' =
          (if agent_speech_accumulator (agent_gap_check s now) = [] then strip ev
           else agent_speech_accumulator (agent_gap_check s now) @ '' '' @ strip ev)"
        "accumulator_last_update s' = Some now"
      by blast
    show ?thesis
      using r f on_agent_speech_closing(2,3) [OF r] unfolding g by blast
  qed
  have b: "\<exists>s'. on_agent_speech s ev now nc = Inr s'
            \<and> agent_speech_accumulator s' = strip ev
            \<and> questions_asked s' = questions_asked (check_accumulator_for_question s)
            \<and> current_question_index s' =
                (if \<exists>keyword \<in> closing_keywords. str_contains keyword (lower (strip ev))
                 then max (current_question_index (check_accumulator_for_question s))
                        (length (questions s))
                 else current_question_index (check_accumulator_for_question s))
            \<and> (\<exists>closing. progress_events s' =
                   progress_events (check_accumulator_for_question s) @ closing)
            \<and> accumulator_last_update s' = Some now"
    if h: "accumulator_last_update s = Some last_update" "interview_start_time s = Some t0"
      "strip ev \<noteq> []" "ACCUMULATOR_GAP_THRESHOLD < fsub now last_update"
  proof -
    have g: "agent_gap_check s now = check_accumulator_for_question s"
      using agent_gap_check_gap(2) [OF h(1,4)] .
    from on_agent_speech_nonempty [OF h(2,3), of now nc] obtain s' where
      r: "on_agent_speech s ev now nc = Inr s'"
      and f: "agent_speech_accumulator s' =
          (if agent_speech_accumulator (agent_gap_check s now) = [] then strip ev
           else agent_speech_accumulator (agent_gap_check s now) @ '' '' @ strip ev)"
        "accumulator_last_update s' = Some now"
      by blast
    have f1: "agent_speech_accumulator s' = strip ev" using f(1) unfolding g by simp
    have p: "\<exists>closing. progress_events s' =
                   progress_events (check_accumulator_for_question s) @ closing"
      using on_agent_speech_closing(4) [OF r] unfolding g by blast
    show ?thesis
      using r f1 f(2) p on_agent_speech_closing(2,3) [OF r] unfolding g by blast
  qed
  have c: "agent_speech_accumulator s \<noteq> []
        \<and> check_question_match s (agent_speech_accumulator s) = Some i
      \<longrightarrow> current_question_index s \<le> i
          \<and> current_question_index (check_accumulator_for_question s) = i + 1
          \<and> questions_asked (check_accumulator_for_question s) = i + 1
          \<and> progress_events (check_accumulator_for_question s) =
              progress_events s
              @ (if call s \<and> agent_user_id s \<noteq> []
                 then [ProgressEvent i (category (questions s ! i)) (expected_questions s)]
                 else [])"
    using flush_matched(1,3,4,5) [of s i] by blast
  have d: "agent_speech_accumulator s = []
        \<or> check_question_match s (agent_speech_accumulator s) = None
      \<longrightarrow> current_question_index (check_accumulator_for_question s) = current_question_index s
          \<and> questions_asked (check_accumulator_for_question s) = questions_asked s
          \<and> progress_events (check_accumulator_for_question s) = progress_events s"
    using flush_unmatched [of s] by blast
  have e: "agent_speech_accumulator (check_accumulator_for_question s) = []"
    "ACCUMULATOR_GAP_THRESHOLD = 2"
    by (simp_all add: ACCUMULATOR_GAP_THRESHOLD_def)
  show ?thesis
    using a b by (intro conjI impI c [rule_format] d [rule_format] e) blast+
qed

theorem accumulator_gap_flush_witness:
  "accumulator_last_update example_asking = Some 101
   \<and> interview_start_time example_asking = Some 100
   \<and> strip ''and databases'' \<noteq> []
   \<and> fsub 102 101 = 1
   \<and> on_agent_speech example_asking ''and databases'' 102 102 = Inr example_joined
   \<and> agent_speech_accumulator example_joined
       = ''So tell me about your experience with systems and databases''
   \<and> questions_asked example_joined = 0
   \<and> fsub 104 101 = 3
   \<and> on_agent_speech example_asking ''and databases'' 104 104 = Inr example_flushed
   \<and> agent_speech_accumulator example_flushed = ''and databases''
   \<and> check_question_match example_asking (agent_speech_accumulator example_asking) = Some 0
   \<and> questions_asked example_flushed = 1
   \<and> current_question_index example_flushed = 1
   \<and> progress_events example_flushed = [ProgressEvent 0 ''technical'' 2]
   \<and> fsub (4728779608739021 / 2251799813685248) (3602879701896397 / 36028797018963968) = 2
   \<and> agent_gap_check
        (example_asking\<lparr>accumulator_last_update := Some (3602879701896397 / 36028797018963968)\<rparr>)
        (4728779608739021 / 2251799813685248)
      = example_asking\<lparr>accumulator_last_update := Some (3602879701896397 / 36028797018963968)\<rparr>"
proof -
  note f = example_fragments
  have n: "strip ''and databases'' \<noteq> []" using f(3) by simp
  have h1: "accumulator_last_update example_asking = Some 101
      \<and> interview_start_time example_asking = Some 100
      \<and> strip ''and databases'' \<noteq> [] \<and> fsub 102 101 \<le> ACCUMULATOR_GAP_THRESHOLD"
    using f(1,2,4) n by (simp add: ACCUMULATOR_GAP_THRESHOLD_def)
  have h2: "accumulator_last_update example_asking = Some 101
      \<and> interview_start_time example_asking = Some 100
      \<and> strip ''and databases'' \<noteq> [] \<and> ACCUMULATOR_GAP_THRESHOLD < fsub 104 101"
    using f(1,2,5) n by (simp add: ACCUMULATOR_GAP_THRESHOLD_def)
  have h3: "agent_speech_accumulator example_asking \<noteq> []
      \<and> check_question_match example_asking (agent_speech_accumulator example_asking) = Some 0"
    using f(8) example_asking_match by simp
  from accumulator_gap_flush [of example_asking 101 100 "''and databases''" 102 102 0,
      THEN conjunct1, rule_format, OF h1]
  obtain s1 where r1: "on_agent_speech example_asking ''and databases'' 102 102 = Inr s1"
    and a1: "agent_speech_accumulator s1 =
              (if agent_speech_accumulator example_asking = [] then strip ''and databases''
               else agent_speech_accumulator example_asking @ '' '' @ strip ''and databases'')"
    and q1: "questions_asked s1 = questions_asked example_asking"
    by blast
  from r1 have e1: "s1 = example_joined" using f(6) by simp
  have j1: "agent_speech_accumulator example_joined
       = ''So tell me about your experience with systems and databases''"
    using a1 unfolding e1 using f(3,8) by simp
  have j2: "questions_asked example_joined = 0" using q1 unfolding e1 using f(11) by simp
  from accumulator_gap_flush [of example_asking 101 100 "''and databases''" 104 104 0,
      THEN conjunct2, THEN conjunct1, rule_format, OF h2]
  obtain s2 where r2: "on_agent_speech example_asking ''and databases'' 104 104 = Inr s2"
    and a2: "agent_speech_accumulator s2 = strip ''and databases''"
    and q2: "questions_asked s2 = questions_asked (check_accumulator_for_question example_asking)"
    and c2: "current_question_index s2 =
                (if \<exists>keyword \<in> closing_keywords.
                      str_contains keyword (lower (strip ''and databases''))
                 then max (current_question_index (check_accumulator_for_question example_asking))
                        (length (questions example_asking))
                 else current_question_index (check_accumulator_for_question example_asking))"
    by blast
  from r2 have e2: "s2 = example_flushed" using f(7) by simp
  from accumulator_gap_flush [of example_asking 101 100 "''and databases''" 104 104 0,
      THEN conjunct2, THEN conjunct2, THEN conjunct1, rule_format, OF h3]
  have m: "current_question_index (check_accumulator_for_question example_asking) = 0 + 1"
    "questions_asked (check_accumulator_for_question example_asking) = 0 + 1"
    by simp_all
  have k1: "agent_speech_accumulator example_flushed = ''and databases''"
    using a2 unfolding e2 using f(3) by simp
  have k2: "questions_asked example_flushed = 1" using q2 m(2) unfolding e2 by simp
  have k3: "current_question_index example_flushed = 1"
    using c2 m(1) f(17) unfolding e2 by simp
  show ?thesis
    by (intro conjI f(1) f(2) n f(4) f(6) j1 j2 f(5) f(7) k1 example_asking_match k2 k3 f(16)
        example_float_gap(2) example_float_gap(3))
qed

end
